theory Spec2Isabelle
  imports Main "HOL-Library.Word"
begin

unbundle bit_operations_syntax

section \<open>Python values and string helpers\<close>

text \<open>
  The program is \<^verbatim>\<open>src/pushbullet_cli/app.py\<close>, a command-line tool that calls the Python 2
  builtin \<^verbatim>\<open>raw_input\<close>. Python 2 strings are byte strings, so a string is a \<^typ>\<open>string\<close>
  and a character is one byte. Numbers that the source writes in octal appear in decimal:
  \<^verbatim>\<open>0o77\<close> is 63, \<^verbatim>\<open>0o666\<close> is 438, \<^verbatim>\<open>0o600\<close> is 384, \<^verbatim>\<open>0o644\<close> is 420 and \<^verbatim>\<open>0o22\<close> is 18.
\<close>

definition newline :: char where
  "newline = CHR 0x0A"

text \<open>\<^verbatim>\<open>str.isspace\<close> on one byte: space, tab, line feed, vertical tab, form feed, carriage return.\<close>

definition isspace :: "char \<Rightarrow> bool" where
  "isspace c = ((of_char c :: nat) = 32 \<or> (9 \<le> (of_char c :: nat) \<and> (of_char c :: nat) \<le> 13))"

text \<open>\<^verbatim>\<open>str.strip()\<close>: drop leading and trailing whitespace.\<close>

definition strip :: "string \<Rightarrow> string" where
  "strip s = rev (dropWhile isspace (rev (dropWhile isspace s)))"

definition isdigit :: "char \<Rightarrow> bool" where
  "isdigit c = (48 \<le> (of_char c :: nat) \<and> (of_char c :: nat) \<le> 57)"

definition digits_value :: "string \<Rightarrow> nat" where
  "digits_value ds = foldl (\<lambda>n c. 10 * n + ((of_char c :: nat) - 48)) 0 ds"

definition parse_digits :: "string \<Rightarrow> int option" where
  "parse_digits ds =
     (if ds \<noteq> [] \<and> list_all isdigit ds then Some (int (digits_value ds)) else None)"

text \<open>
  \<^verbatim>\<open>int(s)\<close> in base 10, for a byte string of Python 2, the language of \<^verbatim>\<open>raw_input\<close>:
  surrounding whitespace is ignored, then an optional sign, whitespace again, and one or
  more decimal digits. (Python 3 does not allow whitespace after the sign.) \<open>None\<close> stands
  for the \<^verbatim>\<open>ValueError\<close> that Python raises.
\<close>

definition py_int :: "string \<Rightarrow> int option" where
  "py_int s =
     (case strip s of
        [] \<Rightarrow> None
      | c # cs \<Rightarrow>
          if c = CHR ''-'' then map_option uminus (parse_digits (dropWhile isspace cs))
          else if c = CHR ''+'' then parse_digits (dropWhile isspace cs)
          else parse_digits (c # cs))"

text \<open>The decimal rendering of a non-negative integer, as \<^verbatim>\<open>str.format\<close> writes it.\<close>

fun str_nat :: "nat \<Rightarrow> string" where
  "str_nat n =
     (if n < 10 then [char_of (48 + n)] else str_nat (n div 10) @ [char_of (48 + n mod 10)])"

text \<open>\<^verbatim>\<open>sep.join(xs)\<close>.\<close>

fun join :: "string \<Rightarrow> string list \<Rightarrow> string" where
  "join sep [] = []"
| "join sep [x] = x"
| "join sep (x # y # ys) = x @ sep @ join sep (y # ys)"

text \<open>\<^verbatim>\<open>enumerate(xs)\<close>, counting from \<open>i\<close>.\<close>

fun enumerate_from :: "nat \<Rightarrow> 'a list \<Rightarrow> (nat \<times> 'a) list" where
  "enumerate_from i [] = []"
| "enumerate_from i (x # xs) = (i, x) # enumerate_from (Suc i) xs"

text \<open>
  A dictionary is an association list with one entry per key: storing under a key that is
  present replaces the value in place, storing under a new key appends the entry. The keys
  are therefore listed in the order of their first insertion, as Python 3.7 and later do;
  older interpreters list them in an order of their own. Which keys a dictionary has and
  what they map to does not depend on that order.
\<close>

fun dict_set :: "'k \<Rightarrow> 'v \<Rightarrow> ('k \<times> 'v) list \<Rightarrow> ('k \<times> 'v) list" where
  "dict_set k v [] = [(k, v)]"
| "dict_set k v ((k', v') # d) =
     (if k' = k then (k, v) # d else (k', v') # dict_set k v d)"

definition dict_get :: "('k \<times> 'v) list \<Rightarrow> 'k \<Rightarrow> 'v option" where
  "dict_get d k = map_of d k"

definition dict_keys :: "('k \<times> 'v) list \<Rightarrow> 'k list" where
  "dict_keys d = map fst d"

text \<open>A device of the account, as the remote client lists it.\<close>

record device =
  iden :: string
  nickname :: string

datatype pyval =
    PNone
  | PStr string
  | PFile string string
  | PDevice device
  | PDict "(string \<times> pyval) list"

datatype error =
    EOFError
  | IOError string
  | TypeError
  | ValueError
  | PushbulletException string pyval

section \<open>The pattern \<^verbatim>\<open>URL_RE\<close>\<close>

text \<open>
  The fragment of Python's regular expressions that \<^verbatim>\<open>^[a-zA-Z]+://.+$\<close> uses: the anchors
  \<^verbatim>\<open>^\<close> and \<^verbatim>\<open>$\<close>, a literal character, and \<^verbatim>\<open>+\<close> applied to a character class, where the
  class is a set of ranges or the dot. Without flags the dot matches every character but the
  line feed, \<^verbatim>\<open>^\<close> matches at the start of the string only, and \<^verbatim>\<open>$\<close> matches at the end
  of the string and just before a line feed that ends the string.
\<close>

datatype char_class = Dot | Ranges "(char \<times> char) list"

datatype re_item = Bol | Eol | Lit char | Plus char_class

fun in_class :: "char_class \<Rightarrow> char \<Rightarrow> bool" where
  "in_class Dot c = (c \<noteq> newline)"
| "in_class (Ranges rs) c =
     list_ex (\<lambda>(lo, hi). (of_char lo :: nat) \<le> of_char c \<and> (of_char c :: nat) \<le> of_char hi) rs"

text \<open>
  \<open>match_here p at_start s\<close>: the pattern \<open>p\<close> matches a prefix of \<open>s\<close>, where \<open>at_start\<close>
  says that \<open>s\<close> is the whole subject string. \<^verbatim>\<open>+\<close> tries the longer match first and
  backtracks.
\<close>

fun match_here :: "re_item list \<Rightarrow> bool \<Rightarrow> string \<Rightarrow> bool" where
  "match_here [] at_start s = True"
| "match_here (Bol # p) at_start s = (at_start \<and> match_here p at_start s)"
| "match_here (Eol # p) at_start s = ((s = [] \<or> s = [newline]) \<and> match_here p at_start s)"
| "match_here (Lit c # p) at_start [] = False"
| "match_here (Lit c # p) at_start (x # xs) = (x = c \<and> match_here p False xs)"
| "match_here (Plus cls # p) at_start [] = False"
| "match_here (Plus cls # p) at_start (x # xs) =
     (in_class cls x \<and> (match_here (Plus cls # p) False xs \<or> match_here p False xs))"

text \<open>\<^verbatim>\<open>pattern.search(s)\<close>, as a truth value: a match starting at some position of \<open>s\<close>.\<close>

definition re_search :: "re_item list \<Rightarrow> string \<Rightarrow> bool" where
  "re_search p s = list_ex (\<lambda>i. match_here p (i = 0) (drop i s)) [0..<Suc (length s)]"

definition URL_RE :: "re_item list" where
  "URL_RE =
     [Bol, Plus (Ranges [(CHR ''a'', CHR ''z''), (CHR ''A'', CHR ''Z'')]),
      Lit CHR '':'', Lit CHR ''/'', Lit CHR ''/'', Plus Dot, Eol]"

section \<open>The world the program runs in\<close>

text \<open>Permission bits and the permission mask are nine bits wide.\<close>

type_synonym mode = "9 word"

datatype node = RegularFile string mode | Directory

text \<open>
  Standard input is a sequence of lines, finite (ending in end-of-file) or infinite. A line is
  kept as it was typed, with its line feed.
\<close>

codatatype input = Eof | Line string input

datatype call = Call string "pyval list" "(string \<times> pyval) list"

text \<open>
  The actions of the options that \<^verbatim>\<open>_parse_args\<close> declares: the three options of the mutually
  exclusive group, and \<^verbatim>\<open>-h/--help\<close>, which every \<^verbatim>\<open>ArgumentParser\<close> has.
\<close>

datatype group_action = ActAll | ActInteractive | ActDevice

datatype option_action = Help | Exclusive group_action

text \<open>
  The ways in which \<^verbatim>\<open>parse_args\<close> ends the process instead of returning: the usage errors
  that this parser can report, and the request for the help text.
\<close>

datatype arg_error =
    NotAllowedWith group_action group_action
  | UnrecognizedArguments "string list"
  | ExpectedOneArgument option_action
  | IgnoredExplicitArgument option_action string
  | AmbiguousOption string "string list"
  | HelpRequested

text \<open>What the process does to its environment, in order.\<close>

datatype event =
    Print string
  | Usage arg_error
  | ReadLine string
  | ReadAll
  | Umask mode
  | IsFile string
  | Open string string
  | Write string string
  | Connect string
  | Remote call

text \<open>
  \<open>argv\<close> is \<^verbatim>\<open>sys.argv[1:]\<close>, the strings of the command line after the program name.
  \<open>key_path\<close> is the value of \<^verbatim>\<open>os.path.expanduser("~/.pushbulletkey")\<close>. The file system is
  a flat map from paths to nodes; \<open>free_space\<close> is the number of bytes that can still be
  written. \<open>account_devices\<close> and \<open>reply\<close> are the remote service: the devices of the account
  and the answer (success flag and data) to a call, given the calls made before it.
  Permission checks on existing files are not modelled.
\<close>

record world =
  argv :: "string list"
  key_path :: string
  fs :: "string \<Rightarrow> node option"
  free_space :: nat
  umask :: mode
  stdin :: input
  account_devices :: "device list"
  reply :: "call list \<Rightarrow> call \<Rightarrow> bool \<times> pyval"
  trace :: "event list"

definition log :: "event \<Rightarrow> world \<Rightarrow> world" where
  "log e w = w\<lparr>trace := trace w @ [e]\<rparr>"

definition print :: "string \<Rightarrow> world \<Rightarrow> world" where
  "print s w = log (Print s) w"

fun remote_calls :: "event list \<Rightarrow> call list" where
  "remote_calls [] = []"
| "remote_calls (Remote c # es) = c # remote_calls es"
| "remote_calls (e # es) = remote_calls es"

text \<open>\<^verbatim>\<open>os.umask(mask)\<close>: set the mask, return the previous one.\<close>

definition os_umask :: "mode \<Rightarrow> world \<Rightarrow> mode \<times> world" where
  "os_umask new_mask w = (umask w, log (Umask new_mask) (w\<lparr>umask := new_mask\<rparr>))"

text \<open>\<^verbatim>\<open>os.path.isfile(path)\<close>.\<close>

definition os_path_isfile :: "string \<Rightarrow> world \<Rightarrow> bool \<times> world" where
  "os_path_isfile path w =
     ((case fs w path of Some (RegularFile content m) \<Rightarrow> True | _ \<Rightarrow> False), log (IsFile path) w)"

text \<open>
  \<^verbatim>\<open>open(path, "w")\<close>: a directory cannot be opened for writing; an existing file is
  truncated and keeps its mode; a new file gets the mode \<^verbatim>\<open>0o666 & ~umask\<close>.
\<close>

definition open_w :: "string \<Rightarrow> world \<Rightarrow> (error + unit) \<times> world" where
  "open_w path w =
     (let w' = log (Open path ''w'') w in
      case fs w path of
        Some Directory \<Rightarrow> (Inl (IOError path), w')
      | Some (RegularFile content m) \<Rightarrow> (Inr (), w'\<lparr>fs := (fs w)(path \<mapsto> RegularFile [] m)\<rparr>)
      | None \<Rightarrow> (Inr (), w'\<lparr>fs := (fs w)(path \<mapsto> RegularFile [] (438 AND NOT (umask w)))\<rparr>))"

text \<open>
  \<^verbatim>\<open>f.write(data)\<close> on a file opened for writing, up to its close: fails when the data does
  not fit in the free space.
\<close>

definition file_write :: "string \<Rightarrow> string \<Rightarrow> world \<Rightarrow> (error + unit) \<times> world" where
  "file_write path data w =
     (let w' = log (Write path data) w in
      case fs w path of
        Some (RegularFile content m) \<Rightarrow>
          if length data \<le> free_space w
          then (Inr (), w'\<lparr>fs := (fs w)(path \<mapsto> RegularFile (content @ data) m),
                            free_space := free_space w - length data\<rparr>)
          else (Inl (IOError path), w')
      | _ \<Rightarrow> (Inl (IOError path), w'))"

text \<open>\<^verbatim>\<open>open(path, "r")\<close> followed by \<^verbatim>\<open>read()\<close>: the whole content of a regular file.\<close>

definition open_r :: "string \<Rightarrow> string \<Rightarrow> world \<Rightarrow> (error + string) \<times> world" where
  "open_r path how w =
     (let w' = log (Open path how) w in
      case fs w path of
        Some (RegularFile content m) \<Rightarrow> (Inr content, w')
      | _ \<Rightarrow> (Inl (IOError path), w'))"

text \<open>Remove the line feed that ends a line, if there is one.\<close>

definition chomp :: "string \<Rightarrow> string" where
  "chomp l = (if l \<noteq> [] \<and> last l = newline then butlast l else l)"

text \<open>
  \<^verbatim>\<open>raw_input(prompt)\<close>: write the prompt, read one line and return it without its line feed;
  \<^verbatim>\<open>EOFError\<close> at end of input.
\<close>

definition raw_input :: "string \<Rightarrow> world \<Rightarrow> (error + string) \<times> world" where
  "raw_input prompt w =
     (let w' = log (ReadLine prompt) w in
      case stdin w of
        Eof \<Rightarrow> (Inl EOFError, w')
      | Line l rest \<Rightarrow> (Inr (chomp l), w'\<lparr>stdin := rest\<rparr>))"

text \<open>
  Modelled from the spec: \<^verbatim>\<open>read_line\<close> of \<^verbatim>\<open>pushbullet_cli/_compat.py\<close>, which is not among
  the sources. The spec has it prompt for one line of input and fail when no line can be
  read.
\<close>

definition read_line :: "string \<Rightarrow> world \<Rightarrow> (error + string) \<times> world" where
  "read_line prompt w = raw_input prompt w"

text \<open>\<^verbatim>\<open>sys.stdin.read()\<close>: everything up to end-of-file; it does not return on endless input.\<close>

partial_function (option) read_to_eof :: "input \<Rightarrow> string option" where
  "read_to_eof s =
     (case s of
        Eof \<Rightarrow> Some []
      | Line l rest \<Rightarrow> Option.bind (read_to_eof rest) (\<lambda>more. Some (l @ more)))"

definition sys_stdin_read :: "world \<Rightarrow> (string \<times> world) option" where
  "sys_stdin_read w =
     map_option (\<lambda>text. (text, log ReadAll (w\<lparr>stdin := Eof\<rparr>))) (read_to_eof (stdin w))"

section \<open>The program\<close>

subsection \<open>\<^verbatim>\<open>private_files\<close>\<close>

text \<open>
  The context manager: set the mask to \<^verbatim>\<open>0o77\<close>, run the body, and in the \<^verbatim>\<open>finally\<close> clause
  set the mask back, whether the body returned or raised.
\<close>

definition private_files ::
  "(world \<Rightarrow> (error + 'a) \<times> world) \<Rightarrow> world \<Rightarrow> (error + 'a) \<times> world" where
  "private_files body w =
     (let (oldmask, w1) = os_umask 63 w;
          (r, w2) = body w1;
          (ignored, w3) = os_umask oldmask w2
      in (r, w3))"

subsection \<open>\<^verbatim>\<open>raise_for_status\<close>\<close>

type_synonym raw_method =
  "pyval list \<Rightarrow> (string \<times> pyval) list \<Rightarrow> world \<Rightarrow> (bool \<times> pyval) \<times> world"

type_synonym py_method =
  "pyval list \<Rightarrow> (string \<times> pyval) list \<Rightarrow> world \<Rightarrow> (error + pyval) \<times> world"

text \<open>
  The exception carries the message \<^verbatim>\<open>"{0} failed: {1}".format(f, data)\<close>; it is kept as its
  two parts, the name of \<open>f\<close> and the data.
\<close>

definition raise_for_status :: "string \<Rightarrow> raw_method \<Rightarrow> py_method" where
  "raise_for_status name f =
     (\<lambda>args kwargs w.
        case f args kwargs w of
          ((success, data), w') \<Rightarrow>
            if \<not> success then (Inl (PushbulletException name data), w')
            else (Inr data, w'))"

subsection \<open>\<^verbatim>\<open>_parse_args\<close>\<close>

record namespace =
  msg :: "string list"
  all :: bool
  interactive :: bool
  device :: "string option"

text \<open>
  \<^verbatim>\<open>_parse_args\<close> declares one positional, \<open>msg\<close>, with \<^verbatim>\<open>nargs="*"\<close>, and the options \<^verbatim>\<open>-a/--all\<close>,
  \<^verbatim>\<open>-i/--interactive\<close> (both \<^verbatim>\<open>store_true\<close>) and \<^verbatim>\<open>-d/--device\<close> (one value) in one mutually
  exclusive group, and returns \<^verbatim>\<open>parser.parse_args()\<close>. What follows is \<^verbatim>\<open>parse_args\<close> of the
  standard library for this parser, after \<^verbatim>\<open>argparse.py\<close> of Python 3.11; the functions keep
  the names they have there. Releases of the library differ in how they split a string such
  as \<^verbatim>\<open>-ax\<close>, and agree on command lines made of plain words and the exact option strings.

  \<open>option_string_actions\<close> is the table of the option strings of the parser.
\<close>

definition option_string_actions :: "(string \<times> option_action) list" where
  "option_string_actions =
     [(''-h'', Help), (''--help'', Help),
      (''-a'', Exclusive ActAll), (''--all'', Exclusive ActAll),
      (''-i'', Exclusive ActInteractive), (''--interactive'', Exclusive ActInteractive),
      (''-d'', Exclusive ActDevice), (''--device'', Exclusive ActDevice)]"

text \<open>
  An option tuple is what \<^verbatim>\<open>_parse_optional\<close> finds in one string: the action (none for an
  option that the parser does not have), the option string, the separator and the explicit
  argument that the string carries, as in \<^verbatim>\<open>--device=NAME\<close> or \<^verbatim>\<open>-dNAME\<close>.
\<close>

datatype option_tuple = OptionTuple "option_action option" string "string option" "string option"

fun option_string :: "option_tuple \<Rightarrow> string" where
  "option_string (OptionTuple act os sep explicit_arg) = os"

text \<open>\<^verbatim>\<open>s.partition(c)\<close> and \<^verbatim>\<open>s.startswith(p)\<close>.\<close>

definition str_partition :: "char \<Rightarrow> string \<Rightarrow> string \<times> string \<times> string" where
  "str_partition c s =
     (takeWhile (\<lambda>x. x \<noteq> c) s, (if c \<in> set s then [c] else []),
      drop 1 (dropWhile (\<lambda>x. x \<noteq> c) s))"

definition startswith :: "string \<Rightarrow> string \<Rightarrow> bool" where
  "startswith s p = (take (length p) s = p)"

text \<open>
  \<^verbatim>\<open>_get_option_tuples\<close>, for a string of at least two characters that begins with \<^verbatim>\<open>-\<close>. A
  string that begins with \<^verbatim>\<open>--\<close> is split at \<^verbatim>\<open>=\<close> and may abbreviate a long option; any
  other is read as a short option followed by its argument.
\<close>

definition get_option_tuples :: "string \<Rightarrow> option_tuple list" where
  "get_option_tuples s =
     (if startswith s ''--'' then
        (let (option_prefix, sep, explicit_arg) = str_partition CHR ''='' s in
         List.map_filter
           (\<lambda>(os, act).
              if startswith os option_prefix
              then Some (OptionTuple (Some act) os
                           (if sep = [] then None else Some sep)
                           (if sep = [] then None else Some explicit_arg))
              else None)
           option_string_actions)
      else
        List.map_filter
          (\<lambda>(os, act).
             if os = take 2 s then Some (OptionTuple (Some act) os (Some []) (Some (drop 2 s)))
             else if startswith os s then Some (OptionTuple (Some act) os None None)
             else None)
          option_string_actions)"

text \<open>
  \<^verbatim>\<open>_negative_number_matcher.match(s)\<close>, for the pattern \<^verbatim>\<open>^-\d+$|^-\d*\.\d+$\<close>, written
  without \<^verbatim>\<open>|\<close> and \<^verbatim>\<open>*\<close>.
\<close>

definition digit :: char_class where
  "digit = Ranges [(CHR ''0'', CHR ''9'')]"

definition negative_number :: "string \<Rightarrow> bool" where
  "negative_number s =
     (match_here [Bol, Lit CHR ''-'', Plus digit, Eol] True s
      \<or> match_here [Bol, Lit CHR ''-'', Lit CHR ''.'', Plus digit, Eol] True s
      \<or> match_here [Bol, Lit CHR ''-'', Plus digit, Lit CHR ''.'', Plus digit, Eol] True s)"

text \<open>
  \<^verbatim>\<open>_parse_optional\<close>: \<open>None\<close> for a string that is an argument, an option tuple for a string
  that is an option. This parser has no option that looks like a negative number, so a
  negative number is an argument.
\<close>

definition parse_optional :: "string \<Rightarrow> arg_error + option_tuple option" where
  "parse_optional s =
     (if s = [] then Inr None
      else if hd s \<noteq> CHR ''-'' then Inr None
      else
        (case map_of option_string_actions s of
           Some act \<Rightarrow> Inr (Some (OptionTuple (Some act) s None None))
         | None \<Rightarrow>
             if length s = 1 then Inr None
             else
               (let (os, sep, explicit_arg) = str_partition CHR ''='' s in
                if sep \<noteq> [] \<and> map_of option_string_actions os \<noteq> None
                then Inr (Some (OptionTuple (map_of option_string_actions os) os
                                  (Some sep) (Some explicit_arg)))
                else
                  (let option_tuples = get_option_tuples s in
                   if length option_tuples > 1
                   then Inl (AmbiguousOption s (map option_string option_tuples))
                   else if length option_tuples = 1 then Inr (Some (hd option_tuples))
                   else if negative_number s then Inr None
                   else if CHR '' '' \<in> set s then Inr None
                   else Inr (Some (OptionTuple None s None None))))))"

text \<open>
  The first loop of \<^verbatim>\<open>_parse_known_args\<close> gives every string its letter in the pattern:
  \<^verbatim>\<open>O\<close> for an option, \<^verbatim>\<open>A\<close> for an argument, \<^verbatim>\<open>-\<close> for the first \<^verbatim>\<open>--\<close>, after which every
  string is an argument.
\<close>

datatype kind = Arg | DoubleDash | Opt option_tuple

fun classify :: "string list \<Rightarrow> arg_error + (string \<times> kind) list" where
  "classify [] = Inr []"
| "classify (s # rest) =
     (if s = ''--'' then Inr ((s, DoubleDash) # map (\<lambda>x. (x, Arg)) rest)
      else
        (case parse_optional s of
           Inl e \<Rightarrow> Inl e
         | Inr t \<Rightarrow>
             (case classify rest of
                Inl e \<Rightarrow> Inl e
              | Inr items \<Rightarrow> Inr ((s, (case t of None \<Rightarrow> Arg | Some ot \<Rightarrow> Opt ot)) # items))))"

text \<open>
  The state of the second loop: the namespace, the actions of the group that were taken
  (\<^verbatim>\<open>seen_non_default_actions\<close>), how far the positional is filled, and the strings left over
  (\<^verbatim>\<open>extras\<close>). The positional takes the first run of arguments; it is \<open>Unfilled\<close> before that
  run, \<open>Filling\<close> within it and \<open>Filled\<close> after it, when the list of positionals is empty.
\<close>

datatype positional = Unfilled | Filling | Filled

record parse_state =
  ns :: namespace
  seen :: "group_action list"
  positional :: positional
  extras :: "string list"

text \<open>
  \<^verbatim>\<open>_match_argument\<close> for an option: the flags and \<^verbatim>\<open>--help\<close> take no argument, \<^verbatim>\<open>--device\<close>
  takes one, which must be an \<^verbatim>\<open>A\<close> of the pattern.
\<close>

fun nargs :: "option_action \<Rightarrow> nat" where
  "nargs (Exclusive ActDevice) = 1"
| "nargs other = 0"

definition match_argument :: "option_action \<Rightarrow> kind list \<Rightarrow> arg_error + nat" where
  "match_argument act arg_strings_pattern =
     (if nargs act = 0 then Inr 0
      else (case arg_strings_pattern of
              Arg # others \<Rightarrow> Inr 1
            | _ \<Rightarrow> Inl (ExpectedOneArgument act)))"

text \<open>
  \<^verbatim>\<open>take_action\<close>: an option of the group is refused when another option of the group was
  taken before; the conflicts are looked for in the order of the group. \<^verbatim>\<open>--help\<close> prints
  the help text and ends the process.
\<close>

definition conflict :: "group_action \<Rightarrow> group_action list \<Rightarrow> group_action option" where
  "conflict a seen_before = find (\<lambda>b. b \<noteq> a \<and> b \<in> set seen_before) [ActAll, ActInteractive, ActDevice]"

fun store :: "group_action \<Rightarrow> string list \<Rightarrow> namespace \<Rightarrow> namespace" where
  "store ActAll args n = n\<lparr>all := True\<rparr>"
| "store ActInteractive args n = n\<lparr>interactive := True\<rparr>"
| "store ActDevice args n = n\<lparr>device := Some (hd args)\<rparr>"

fun take_action :: "option_action \<Rightarrow> string list \<Rightarrow> parse_state \<Rightarrow> arg_error + parse_state" where
  "take_action Help args st = Inl HelpRequested"
| "take_action (Exclusive a) args st =
     (case conflict a (seen st) of
        Some b \<Rightarrow> Inl (NotAllowedWith a b)
      | None \<Rightarrow> Inr (st\<lparr>ns := store a args (ns st), seen := a # seen st\<rparr>))"

fun take_actions ::
  "(option_action \<times> string list) list \<Rightarrow> parse_state \<Rightarrow> arg_error + parse_state" where
  "take_actions [] st = Inr st"
| "take_actions ((act, args) # others) st =
     (case take_action act args st of Inl e \<Rightarrow> Inl e | Inr st' \<Rightarrow> take_actions others st')"

text \<open>
  The loop of \<^verbatim>\<open>consume_optional\<close>, for an option that the parser has. It returns the actions
  to take with their arguments, the strings to add to \<^verbatim>\<open>extras\<close>, and how many of the
  following strings the option takes. An explicit argument is the value of \<^verbatim>\<open>--device\<close>;
  behind a short flag it is read as further short options.
\<close>

function consume_optional ::
  "option_action \<Rightarrow> string \<Rightarrow> string option \<Rightarrow> string option
   \<Rightarrow> (option_action \<times> string list) list \<Rightarrow> (string \<times> kind) list
   \<Rightarrow> arg_error + ((option_action \<times> string list) list \<times> string list \<times> nat)" where
  "consume_optional act os sep explicit_arg action_tuples following =
     (case explicit_arg of
        None \<Rightarrow>
          (case match_argument act (map snd following) of
             Inl e \<Rightarrow> Inl e
           | Inr arg_count \<Rightarrow>
               Inr (action_tuples @ [(act, take arg_count (map fst following))], [], arg_count))
      | Some ex \<Rightarrow>
          (case match_argument act [Arg] of
             Inl e \<Rightarrow> Inl e
           | Inr arg_count \<Rightarrow>
               if arg_count = 0 \<and> os ! 1 \<noteq> CHR ''-'' \<and> ex \<noteq> [] then
                 if (sep \<noteq> None \<and> sep \<noteq> Some []) \<or> hd ex = CHR ''-''
                 then Inl (IgnoredExplicitArgument act ex)
                 else
                   (case map_of option_string_actions [CHR ''-'', hd ex] of
                      Some act' \<Rightarrow>
                        if tl ex = [] then
                          consume_optional act' [CHR ''-'', hd ex] None None
                            (action_tuples @ [(act, [])]) following
                        else if hd (tl ex) = CHR ''='' then
                          consume_optional act' [CHR ''-'', hd ex] (Some ''='') (Some (tl (tl ex)))
                            (action_tuples @ [(act, [])]) following
                        else
                          consume_optional act' [CHR ''-'', hd ex] (Some []) (Some (tl ex))
                            (action_tuples @ [(act, [])]) following
                    | None \<Rightarrow> Inr (action_tuples @ [(act, [])], [CHR ''-'' # ex], 0))
               else if arg_count = 1 then Inr (action_tuples @ [(act, [ex])], [], 0)
               else Inl (IgnoredExplicitArgument act ex)))"
  by pat_completeness auto

termination
  by (relation "measure (\<lambda>(act, os, sep, explicit_arg, action_tuples, following).
                   case explicit_arg of None \<Rightarrow> 0 | Some ex \<Rightarrow> Suc (length ex))")
     (auto split: option.splits)

text \<open>
  The second loop of \<^verbatim>\<open>_parse_known_args\<close>, one string at a time. An argument goes to the
  positional while the positional is not \<open>Filled\<close>, and to \<^verbatim>\<open>extras\<close> afterwards. The only
  string with the letter \<^verbatim>\<open>-\<close> is the first \<^verbatim>\<open>--\<close> of the command line, so it is the one that
  \<^verbatim>\<open>_get_values\<close> removes from the values of the positional. An option ends the run of the
  positional; an option that the parser does not have goes to \<^verbatim>\<open>extras\<close>.
\<close>

definition close_run :: "parse_state \<Rightarrow> parse_state" where
  "close_run st = st\<lparr>positional := (if positional st = Unfilled then Unfilled else Filled)\<rparr>"

function parse_loop :: "parse_state \<Rightarrow> (string \<times> kind) list \<Rightarrow> arg_error + parse_state" where
  "parse_loop st [] = Inr st"
| "parse_loop st ((s, Arg) # rest) =
     (if positional st = Filled then parse_loop (st\<lparr>extras := extras st @ [s]\<rparr>) rest
      else parse_loop (st\<lparr>ns := (ns st)\<lparr>msg := msg (ns st) @ [s]\<rparr>, positional := Filling\<rparr>) rest)"
| "parse_loop st ((s, DoubleDash) # rest) =
     (if positional st = Filled then parse_loop (st\<lparr>extras := extras st @ [s]\<rparr>) rest
      else parse_loop (st\<lparr>positional := Filling\<rparr>) rest)"
| "parse_loop st ((s, Opt (OptionTuple None os sep explicit_arg)) # rest) =
     parse_loop ((close_run st)\<lparr>extras := extras st @ [s]\<rparr>) rest"
| "parse_loop st ((s, Opt (OptionTuple (Some act) os sep explicit_arg)) # rest) =
     (case consume_optional act os sep explicit_arg [] rest of
        Inl e \<Rightarrow> Inl e
      | Inr (action_tuples, extra, arg_count) \<Rightarrow>
          (case take_actions action_tuples ((close_run st)\<lparr>extras := extras st @ extra\<rparr>) of
             Inl e \<Rightarrow> Inl e
           | Inr st' \<Rightarrow> parse_loop st' (drop arg_count rest)))"
  by pat_completeness auto

termination
  by (relation "measure (\<lambda>(st, items). length items)") auto

text \<open>
  \<^verbatim>\<open>parse_args\<close>: strings left over at the end are an error. The message starts out empty:
  the positional is always taken, with no values when there is no argument for it.
\<close>

definition parse_args :: "string list \<Rightarrow> arg_error + namespace" where
  "parse_args arg_strings =
     (case classify arg_strings of
        Inl e \<Rightarrow> Inl e
      | Inr items \<Rightarrow>
          (case parse_loop
                  \<lparr>ns = \<lparr>msg = [], all = False, interactive = False, device = None\<rparr>,
                   seen = [], positional = Unfilled, extras = []\<rparr> items of
             Inl e \<Rightarrow> Inl e
           | Inr st \<Rightarrow>
               if extras st \<noteq> [] then Inl (UnrecognizedArguments (extras st)) else Inr (ns st)))"

subsection \<open>\<^verbatim>\<open>_get_api_key\<close>\<close>

definition get_api_key :: "world \<Rightarrow> (error + string) \<times> world" where
  "get_api_key w =
     (let (is_file, w1) = os_path_isfile (key_path w) w in
      if \<not> is_file then
        (let w2 = print ''What's your API key?'' w1;
             w3 = print ''Find it at <https://www.pushbullet.com/account>.'' w2
         in case read_line ''> '' w3 of
              (Inl e, w4) \<Rightarrow> (Inl e, w4)
            | (Inr line, w4) \<Rightarrow>
                (let api_key = strip line
                 in case private_files
                           (\<lambda>v. case open_w (key_path w) v of
                                   (Inl e, v') \<Rightarrow> (Inl e, v')
                                 | (Inr api_file, v') \<Rightarrow> file_write (key_path w) api_key v') w4 of
                      (Inl e, w5) \<Rightarrow> (Inl e, w5)
                    | (Inr done, w5) \<Rightarrow> (Inr api_key, w5)))
      else open_r (key_path w) ''r'' w1)"

subsection \<open>\<^verbatim>\<open>_prompt_device\<close>\<close>

text \<open>
  The \<^verbatim>\<open>while True\<close> loop. \<open>None\<close> is the loop that never ends; an \<^verbatim>\<open>EOFError\<close> of
  \<^verbatim>\<open>raw_input\<close> is not caught and leaves the loop.
\<close>

partial_function (option) prompt_loop ::
  "device list \<Rightarrow> world \<Rightarrow> ((error + device) \<times> world) option" where
  "prompt_loop devs w =
     (case raw_input ''Push to which device? '' w of
        (Inl e, w') \<Rightarrow> Some (Inl e, w')
      | (Inr line, w') \<Rightarrow>
          (case py_int (strip line) of
             None \<Rightarrow> prompt_loop devs w'
           | Some choice \<Rightarrow>
               if 0 \<le> choice \<and> choice < int (length devs)
               then Some (Inr (devs ! nat choice), w')
               else prompt_loop devs w'))"

definition menu_line :: "nat \<times> device \<Rightarrow> string" where
  "menu_line p = ''['' @ str_nat (fst p) @ ''] '' @ nickname (snd p)"

definition prompt_device :: "device list \<Rightarrow> world \<Rightarrow> ((error + device) \<times> world) option" where
  "prompt_device devs w =
     prompt_loop devs (foldl (\<lambda>v p. print (menu_line p) v) w (enumerate_from 0 devs))"

subsection \<open>The remote client\<close>

text \<open>
  The client object of the \<^verbatim>\<open>pushbullet\<close> library: the device list and the four methods the
  program calls. Calling a method sends the call to the service and returns its reply.
\<close>

record 'm client =
  devices :: "device list"
  push_file :: 'm
  upload_file :: 'm
  push_link :: 'm
  push_note :: 'm

definition remote_method :: "string \<Rightarrow> raw_method" where
  "remote_method name args kwargs w =
     (reply w (remote_calls (trace w)) (Call name args kwargs),
      log (Remote (Call name args kwargs)) w)"

definition PushBullet :: "string \<Rightarrow> world \<Rightarrow> raw_method client \<times> world" where
  "PushBullet api_key w =
     (\<lparr>devices = account_devices w,
       push_file = remote_method ''push_file'',
       upload_file = remote_method ''upload_file'',
       push_link = remote_method ''push_link'',
       push_note = remote_method ''push_note''\<rparr>,
      log (Connect api_key) w)"

text \<open>Lines 123 to 125 of \<^verbatim>\<open>main\<close>: each of the four methods is replaced by its wrapper.\<close>

definition decorate :: "raw_method client \<Rightarrow> py_method client" where
  "decorate pb =
     \<lparr>devices = devices pb,
      push_file = raise_for_status ''push_file'' (push_file pb),
      upload_file = raise_for_status ''upload_file'' (upload_file pb),
      push_link = raise_for_status ''push_link'' (push_link pb),
      push_note = raise_for_status ''push_note'' (push_note pb)\<rparr>"

subsection \<open>\<^verbatim>\<open>_push\<close>\<close>

text \<open>
  \<^verbatim>\<open>data.update(file_data)\<close>. A dictionary is merged in. Any other value is taken as a
  sequence of key-value pairs: \<^verbatim>\<open>None\<close> and a device cannot be iterated over, which is a
  \<^verbatim>\<open>TypeError\<close>; a string is a sequence of one-character strings, none of them a pair, so a
  string raises \<^verbatim>\<open>ValueError\<close> unless it is empty, and the empty string changes nothing; a
  file object is one that \<^verbatim>\<open>_push\<close> opened, closed by the time of the update, and reading
  it raises \<^verbatim>\<open>ValueError\<close>.
\<close>

definition dict_update :: "(string \<times> pyval) list \<Rightarrow> pyval \<Rightarrow> error + (string \<times> pyval) list" where
  "dict_update d other =
     (case other of
        PDict kvs \<Rightarrow> Inr (foldl (\<lambda>acc kv. dict_set (fst kv) (snd kv) acc) d kvs)
      | PStr s \<Rightarrow> if s = [] then Inr d else Inl ValueError
      | PFile path content \<Rightarrow> Inl ValueError
      | PNone \<Rightarrow> Inl TypeError
      | PDevice dev \<Rightarrow> Inl TypeError)"

definition push ::
  "py_method client \<Rightarrow> pyval \<Rightarrow> string \<Rightarrow> string \<Rightarrow> world \<Rightarrow> (error + unit) \<times> world" where
  "push pb dev raw_data dtype w =
     (let data = (if dev \<noteq> PNone then dict_set ''device'' dev [] else []) in
      if dtype = ''file'' then
        (case open_r raw_data ''rb'' w of
           (Inl e, w1) \<Rightarrow> (Inl e, w1)
         | (Inr content, w1) \<Rightarrow>
             (case upload_file pb [PFile raw_data content, PStr raw_data] [] w1 of
                (Inl e, w2) \<Rightarrow> (Inl e, w2)
              | (Inr file_data, w2) \<Rightarrow>
                  (case dict_update data file_data of
                     Inl e \<Rightarrow> (Inl e, w2)
                   | Inr data' \<Rightarrow>
                       (case push_file pb [] data' w2 of
                          (Inl e, w3) \<Rightarrow> (Inl e, w3)
                        | (Inr r, w3) \<Rightarrow> (Inr (), w3)))))
      else if dtype = ''url'' then
        (case push_link pb [] ([(''title'', PStr raw_data), (''url'', PStr raw_data)] @ data) w of
           (Inl e, w1) \<Rightarrow> (Inl e, w1)
         | (Inr r, w1) \<Rightarrow> (Inr (), w1))
      else
        (case push_note pb [] ([(''title'', PStr ''Note''), (''body'', PStr raw_data)] @ data) w of
           (Inl e, w1) \<Rightarrow> (Inl e, w1)
         | (Inr r, w1) \<Rightarrow> (Inr (), w1)))"

subsection \<open>\<^verbatim>\<open>_data_type\<close>\<close>

definition data_type :: "string \<Rightarrow> world \<Rightarrow> string \<times> world" where
  "data_type argument w =
     (let (is_file, w') = os_path_isfile argument w in
      if is_file then (''file'', w')
      else if re_search URL_RE argument then (''url'', w')
      else (''text'', w'))"

subsection \<open>\<^verbatim>\<open>main\<close>\<close>

text \<open>
  How a run ends: \<^verbatim>\<open>main\<close> returns a status, an exception leaves it, or \<^verbatim>\<open>argparse\<close> ends the
  process: with status 2 after the message of a usage error, with status 0 after the help
  text. The value that \<^verbatim>\<open>main\<close> returns is the exit status of the command.
\<close>

datatype outcome = Return int | Raise error | SystemExit int

fun exit_status :: "arg_error \<Rightarrow> int" where
  "exit_status HelpRequested = 0"
| "exit_status e = 2"

text \<open>\<^verbatim>\<open>{d.nickname: d for d in pb.devices}\<close>.\<close>

definition devices_by_names :: "device list \<Rightarrow> (string \<times> device) list" where
  "devices_by_names devs = foldl (\<lambda>acc d. dict_set (nickname d) d acc) [] devs"

text \<open>
  Lines 127 to 141 of \<^verbatim>\<open>main\<close>: the device to push to, \<^verbatim>\<open>None\<close> when there is none, or the
  early return. \<^verbatim>\<open>elif args.device\<close> takes a name that is not empty.
\<close>

definition select_device ::
  "namespace \<Rightarrow> py_method client \<Rightarrow> world \<Rightarrow> ((outcome + pyval) \<times> world) option" where
  "select_device args pb w =
     (if \<not> all args then
        if length (devices pb) < 1 then
          Some (Inl (Return 1),
                print ''Add one at <https://www.pushbullet.com/>.''
                  (print ''You don't have any devices!'' w))
        else if interactive args then
          (case prompt_device (devices pb) w of
             None \<Rightarrow> None
           | Some (Inl e, w') \<Rightarrow> Some (Inl (Raise e), w')
           | Some (Inr d, w') \<Rightarrow> Some (Inr (PDevice d), w'))
        else if device args \<noteq> None \<and> device args \<noteq> Some [] then
          (case dict_get (devices_by_names (devices pb)) (the (device args)) of
             None \<Rightarrow>
               Some (Inl (Return 1),
                     print (''Unknown device '' @ the (device args) @ ''. Available devices: ''
                            @ join '', '' (dict_keys (devices_by_names (devices pb)))) w)
           | Some d \<Rightarrow> Some (Inr (PDevice d), w))
        else Some (Inr PNone, w)
      else Some (Inr PNone, w))"

text \<open>Lines 143 to 149 of \<^verbatim>\<open>main\<close>: the message and its kind.\<close>

definition read_message :: "namespace \<Rightarrow> world \<Rightarrow> ((string \<times> string) \<times> world) option" where
  "read_message args w =
     (if msg args = [] then
        (case sys_stdin_read (print ''Enter your message: '' w) of
           None \<Rightarrow> None
         | Some (arg, w') \<Rightarrow> Some ((arg, ''text''), w'))
      else
        (let arg = join '' '' (msg args); (dtype, w') = data_type arg w
         in Some ((arg, dtype), w')))"

definition main :: "world \<Rightarrow> (outcome \<times> world) option" where
  "main w =
     (case parse_args (argv w) of
        Inl e \<Rightarrow> Some (SystemExit (exit_status e), log (Usage e) w)
      | Inr args \<Rightarrow>
          (case get_api_key w of
             (Inl e, w1) \<Rightarrow> Some (Raise e, w1)
           | (Inr api_key, w1) \<Rightarrow>
               (let (pb0, w2) = PushBullet api_key w1; pb = decorate pb0
                in case select_device args pb w2 of
                     None \<Rightarrow> None
                   | Some (Inl out, w3) \<Rightarrow> Some (out, w3)
                   | Some (Inr dev, w3) \<Rightarrow>
                       (case read_message args w3 of
                          None \<Rightarrow> None
                        | Some ((arg, dtype), w4) \<Rightarrow>
                            (case push pb dev arg dtype w4 of
                               (Inl e, w5) \<Rightarrow> Some (Raise e, w5)
                             | (Inr r, w5) \<Rightarrow> Some (Return 0, w5))))))"

subsection \<open>The shape of a link\<close>

text \<open>
  \<open>url_shape rest_ok s\<close>: the string is one or more letters \<^verbatim>\<open>a-z\<close>, \<^verbatim>\<open>A-Z\<close>, then \<^verbatim>\<open>://\<close>, then a
  remainder that \<open>rest_ok\<close> accepts. \<open>one_line\<close> accepts what \<^verbatim>\<open>.+$\<close> matches: one or more
  characters other than the line feed, with at most one line feed after them. \<open>nonempty\<close>
  accepts what the specification describes, any remainder that is not empty, and
  \<open>spec_data_type\<close> is the classification in the specification's words.
\<close>

definition ascii_letter :: "char \<Rightarrow> bool" where
  "ascii_letter c = in_class (Ranges [(CHR ''a'', CHR ''z''), (CHR ''A'', CHR ''Z'')]) c"

definition one_line :: "string \<Rightarrow> bool" where
  "one_line r = (chomp r \<noteq> [] \<and> newline \<notin> set (chomp r))"

definition url_shape :: "(string \<Rightarrow> bool) \<Rightarrow> string \<Rightarrow> bool" where
  "url_shape rest_ok s =
     list_ex (\<lambda>i. take i s \<noteq> [] \<and> list_all ascii_letter (take i s)
                 \<and> take 3 (drop i s) = ''://'' \<and> rest_ok (drop (i + 3) s)) [0..<Suc (length s)]"

definition is_regular_file :: "world \<Rightarrow> string \<Rightarrow> bool" where
  "is_regular_file w path = (case fs w path of Some (RegularFile content m) \<Rightarrow> True | _ \<Rightarrow> False)"

definition nonempty :: "string \<Rightarrow> bool" where
  "nonempty r = (r \<noteq> [])"

definition spec_data_type :: "world \<Rightarrow> string \<Rightarrow> string" where
  "spec_data_type w arg =
     (if is_regular_file w arg then ''file''
      else if url_shape nonempty arg then ''url''
      else ''text'')"

definition bare_world :: world where
  "bare_world =
     \<lparr>argv = [], key_path = ''/home/u/.pushbulletkey'', fs = Map.empty, free_space = 4096,
      umask = 18, stdin = Eof, account_devices = [], reply = (\<lambda>before c. (True, PNone)),
      trace = []\<rparr>"

definition two_lines :: string where
  "two_lines = ''http://a'' @ [newline] @ ''b''"

subsection \<open>Calls and sample worlds\<close>

text \<open>
  The keyword arguments that \<^verbatim>\<open>_push\<close> builds for a note, a link and a file, the call that
  uploads a file, and the client as \<^verbatim>\<open>main\<close> prepares it (lines 119 to 125).
\<close>

definition note_kwargs :: "pyval \<Rightarrow> string \<Rightarrow> (string \<times> pyval) list" where
  "note_kwargs dev content =
     [(''title'', PStr ''Note''), (''body'', PStr content)]
     @ (if dev \<noteq> PNone then [(''device'', dev)] else [])"

definition link_kwargs :: "pyval \<Rightarrow> string \<Rightarrow> (string \<times> pyval) list" where
  "link_kwargs dev content =
     [(''title'', PStr content), (''url'', PStr content)]
     @ (if dev \<noteq> PNone then [(''device'', dev)] else [])"

definition upload_call :: "string \<Rightarrow> string \<Rightarrow> call" where
  "upload_call path content = Call ''upload_file'' [PFile path content, PStr path] []"

definition file_kwargs :: "pyval \<Rightarrow> (string \<times> pyval) list \<Rightarrow> (string \<times> pyval) list" where
  "file_kwargs dev kvs =
     foldl (\<lambda>acc kv. dict_set (fst kv) (snd kv) acc) (if dev \<noteq> PNone then [(''device'', dev)] else []) kvs"

definition wrapped_client :: "string \<Rightarrow> world \<Rightarrow> py_method client" where
  "wrapped_client key w = decorate (fst (PushBullet key w))"

definition failing_world :: world where
  "failing_world =
     bare_world\<lparr>argv := [''--all'', ''hi''],
                fs := [''/home/u/.pushbulletkey'' \<mapsto> RegularFile ''ABC123'' 384],
                reply := (\<lambda>before c. (False, PStr ''boom''))\<rparr>"

definition failing_file_world :: world where
  "failing_file_world =
     failing_world\<lparr>fs := [''/tmp/f'' \<mapsto> RegularFile ''data'' 420]\<rparr>"

definition half_failing_world :: world where
  "half_failing_world =
     failing_file_world\<lparr>reply := (\<lambda>before c. if before = [] then (True, PDict [(''file_name'', PStr ''f'')])
                                               else (False, PStr ''late''))\<rparr>"

subsection \<open>Sample worlds for the key file\<close>


definition full_disk_world :: world where
  "full_disk_world = bare_world\<lparr>stdin := Line (''ABC123'' @ [newline]) Eof, free_space := 3\<rparr>"

definition new_events :: "world \<Rightarrow> world \<Rightarrow> event list" where
  "new_events w w' = drop (length (trace w)) (trace w')"

subsection \<open>The command line\<close>















text \<open>
  What holds of the state of the parser all along: the options of the group that were
  taken are one and the same, and a field of the namespace is set only if its option was
  taken.
\<close>

definition one_option :: "parse_state \<Rightarrow> bool" where
  "one_option st =
     ((\<forall>a\<in>set (seen st). \<forall>b\<in>set (seen st). a = b)
      \<and> (all (ns st) \<longrightarrow> ActAll \<in> set (seen st))
      \<and> (interactive (ns st) \<longrightarrow> ActInteractive \<in> set (seen st))
      \<and> (device (ns st) \<noteq> None \<longrightarrow> ActDevice \<in> set (seen st)))"




subsection \<open>Devices and sample accounts\<close>

text \<open>
  Three devices, two of them with the same nickname; a world with the key file in place and
  two devices; and command lines for it.
\<close>

definition phone :: device where
  "phone = \<lparr>iden = ''dev1'', nickname = ''Phone''\<rparr>"

definition tablet :: device where
  "tablet = \<lparr>iden = ''dev2'', nickname = ''Tablet''\<rparr>"

definition new_phone :: device where
  "new_phone = \<lparr>iden = ''dev3'', nickname = ''Phone''\<rparr>"

definition keyed_world :: world where
  "keyed_world =
     bare_world\<lparr>fs := [''/home/u/.pushbulletkey'' \<mapsto> RegularFile ''ABC123'' 384],
                account_devices := [phone, tablet]\<rparr>"

definition unknown_device_line :: "string \<Rightarrow> device list \<Rightarrow> string" where
  "unknown_device_line name devs =
     ''Unknown device '' @ name @ ''. Available devices: ''
     @ join '', '' (dict_keys (devices_by_names devs))"

definition unknown_name_world :: world where
  "unknown_name_world = keyed_world\<lparr>argv := [''--device'', ''phone'', ''hi'']\<rparr>"

definition known_name_world :: world where
  "known_name_world = keyed_world\<lparr>argv := [''--device'', ''Tablet'', ''hi'']\<rparr>"

definition empty_name_world :: world where
  "empty_name_world = keyed_world\<lparr>argv := [''--device'', [], ''hi'']\<rparr>"

definition no_devices_world :: world where
  "no_devices_world = keyed_world\<lparr>argv := [''hi''], account_devices := []\<rparr>"

definition all_no_devices_world :: world where
  "all_no_devices_world = keyed_world\<lparr>argv := [''-a'', ''hi''], account_devices := []\<rparr>"

subsection \<open>Lines of input\<close>

text \<open>
  \<open>chosen devs l\<close> is the device that the typed line \<open>l\<close> selects: the line, without its line
  feed and surrounding whitespace, must parse as an integer \<open>i\<close> with \<open>0 \<le> i < len(devs)\<close>.
  \<open>line_at n s\<close> is the \<open>n\<close>-th line of the input \<open>s\<close>, counted from 0, and \<open>after n s\<close> the
  input behind the first \<open>n\<close> lines. \<open>menu\<close> is the list of menu lines, \<open>asked w rest\<close> the
  world after one more prompt was shown and one line was read, and \<open>noise\<close> an input that
  never ends and never holds a number.
\<close>

definition chosen :: "device list \<Rightarrow> string \<Rightarrow> device option" where
  "chosen devs l =
     (case py_int (strip (chomp l)) of
        None \<Rightarrow> None
      | Some choice \<Rightarrow>
          if 0 \<le> choice \<and> choice < int (length devs) then Some (devs ! nat choice) else None)"

primrec after :: "nat \<Rightarrow> input \<Rightarrow> input" where
  "after 0 s = s"
| "after (Suc n) s = (case s of Eof \<Rightarrow> Eof | Line l rest \<Rightarrow> after n rest)"

definition line_at :: "nat \<Rightarrow> input \<Rightarrow> string option" where
  "line_at n s = (case after n s of Eof \<Rightarrow> None | Line l rest \<Rightarrow> Some l)"

definition menu :: "device list \<Rightarrow> string list" where
  "menu devs = map menu_line (enumerate_from 0 devs)"

definition asked :: "world \<Rightarrow> input \<Rightarrow> world" where
  "asked w rest = (log (ReadLine ''Push to which device? '') w)\<lparr>stdin := rest\<rparr>"

primcorec noise :: input where
  "noise = Line ''x'' noise"

definition typo_world :: world where
  "typo_world =
     bare_world\<lparr>stdin := Line (''x'' @ [newline]) (Line (''7'' @ [newline])
                                (Line ('' 1 '' @ [newline]) (Line ''0'' Eof)))\<rparr>"

section \<open>Verification\<close>

subsection \<open>Sample command lines\<close>

lemma parse_examples:
  "parse_args [''--all'', ''hi''] = Inr \<lparr>msg = [''hi''], all = True, interactive = False, device = None\<rparr>"
  "parse_args [''-a'', ''hi''] = Inr \<lparr>msg = [''hi''], all = True, interactive = False, device = None\<rparr>"
  "parse_args [''hi''] = Inr \<lparr>msg = [''hi''], all = False, interactive = False, device = None\<rparr>"
  "parse_args [''-i''] = Inr \<lparr>msg = [], all = False, interactive = True, device = None\<rparr>"
  "parse_args [''--device'', ''Tablet'', ''hi'']
     = Inr \<lparr>msg = [''hi''], all = False, interactive = False, device = Some ''Tablet''\<rparr>"
  "parse_args [''--device'', ''phone'', ''hi'']
     = Inr \<lparr>msg = [''hi''], all = False, interactive = False, device = Some ''phone''\<rparr>"
  "parse_args [''--device'', [], ''hi'']
     = Inr \<lparr>msg = [''hi''], all = False, interactive = False, device = Some []\<rparr>"
  "parse_args [''--all'', ''hi'', ''-i''] = Inl (NotAllowedWith ActInteractive ActAll)"
  "parse_args [''--all'', ''--help'', ''-i''] = Inl HelpRequested"
  "parse_args [''hello'', ''--all'', ''world''] = Inl (UnrecognizedArguments [''world''])"
  "parse_args [''-x''] = Inl (UnrecognizedArguments [''-x''])"
  "parse_args [''--device''] = Inl (ExpectedOneArgument (Exclusive ActDevice))"
  by code_simp+

subsection \<open>The pattern\<close>

lemma match_plus:
  "match_here (Plus cls # p) b s \<longleftrightarrow>
     (\<exists>pre post. s = pre @ post \<and> pre \<noteq> [] \<and> list_all (in_class cls) pre \<and> match_here p False post)"
proof (induction s arbitrary: b)
  case Nil
  then show ?case by simp
next
  case (Cons x xs)
  show ?case
  proof
    assume "match_here (Plus cls # p) b (x # xs)"
    then have x: "in_class cls x" and d: "match_here (Plus cls # p) False xs \<or> match_here p False xs"
      by simp_all
    from d show "\<exists>pre post. x # xs = pre @ post \<and> pre \<noteq> [] \<and> list_all (in_class cls) pre \<and> match_here p False post"
    proof
      assume "match_here (Plus cls # p) False xs"
      then obtain pre post where "xs = pre @ post" "pre \<noteq> []" "list_all (in_class cls) pre" "match_here p False post"
        using Cons.IH by blast
      with x have "x # xs = (x # pre) @ post \<and> x # pre \<noteq> [] \<and> list_all (in_class cls) (x # pre) \<and> match_here p False post"
        by simp
      then show ?thesis by blast
    next
      assume "match_here p False xs"
      with x have "x # xs = [x] @ xs \<and> [x] \<noteq> [] \<and> list_all (in_class cls) [x] \<and> match_here p False xs"
        by simp
      then show ?thesis by blast
    qed
  next
    assume "\<exists>pre post. x # xs = pre @ post \<and> pre \<noteq> [] \<and> list_all (in_class cls) pre \<and> match_here p False post"
    then obtain pre post where e: "x # xs = pre @ post" and ne: "pre \<noteq> []"
      and a: "list_all (in_class cls) pre" and m: "match_here p False post" by blast
    from ne obtain y ys where pre: "pre = y # ys" by (cases pre) auto
    with e have xy: "x = y" and xs: "xs = ys @ post" by simp_all
    from a pre xy have x: "in_class cls x" and ys: "list_all (in_class cls) ys" by simp_all
    show "match_here (Plus cls # p) b (x # xs)"
    proof (cases "ys = []")
      case True
      with xs m x show ?thesis by simp
    next
      case False
      with xs ys m have "match_here (Plus cls # p) False xs" using Cons.IH by blast
      with x show ?thesis by simp
    qed
  qed
qed

lemma re_search_Bol: "re_search (Bol # p) s = match_here p True s"
proof -
  have "list_ex (\<lambda>i. match_here (Bol # p) (i = 0) (drop i s)) [0..<Suc (length s)]
        \<longleftrightarrow> (\<exists>i<Suc (length s). i = 0 \<and> match_here p (i = 0) (drop i s))"
    by (auto simp: list_ex_iff)
  also have "\<dots> \<longleftrightarrow> match_here p True s" by auto
  finally show ?thesis by (simp add: re_search_def)
qed

lemma match_lits:
  "match_here (Lit a # Lit b # Lit c # p) f s \<longleftrightarrow> (take 3 s = [a, b, c] \<and> match_here p False (drop 3 s))"
  by (cases s; cases "tl s"; cases "tl (tl s)") auto

lemma match_Eol: "match_here [Eol] f s \<longleftrightarrow> (s = [] \<or> s = [newline])"
  by simp

lemma one_line_iff:
  "one_line r \<longleftrightarrow> (\<exists>body e. r = body @ e \<and> body \<noteq> [] \<and> list_all (in_class Dot) body \<and> (e = [] \<or> e = [newline]))"
proof
  assume o: "one_line r"
  show "\<exists>body e. r = body @ e \<and> body \<noteq> [] \<and> list_all (in_class Dot) body \<and> (e = [] \<or> e = [newline])"
  proof (cases "r \<noteq> [] \<and> last r = newline")
    case True
    then have "r = butlast r @ [newline]" by (metis append_butlast_last_id)
    moreover from o True have "butlast r \<noteq> []" "list_all (in_class Dot) (butlast r)"
      by (auto simp: one_line_def chomp_def list_all_iff)
    ultimately show ?thesis by blast
  next
    case False
    with o have "r = r @ [] \<and> r \<noteq> [] \<and> list_all (in_class Dot) r"
      by (auto simp: one_line_def chomp_def list_all_iff)
    then show ?thesis by blast
  qed
next
  assume "\<exists>body e. r = body @ e \<and> body \<noteq> [] \<and> list_all (in_class Dot) body \<and> (e = [] \<or> e = [newline])"
  then obtain body e where r: "r = body @ e" and b: "body \<noteq> []" "list_all (in_class Dot) body"
    and e: "e = [] \<or> e = [newline]" by blast
  from e show "one_line r"
  proof
    assume "e = []"
    with r b have "last r \<noteq> newline" by (auto simp: list_all_iff)
    with r b \<open>e = []\<close> show ?thesis by (auto simp: one_line_def chomp_def list_all_iff)
  next
    assume "e = [newline]"
    with r b show ?thesis by (auto simp: one_line_def chomp_def list_all_iff)
  qed
qed

lemma url_shape_iff:
  "url_shape ok s \<longleftrightarrow>
     (\<exists>pre post. s = pre @ post \<and> pre \<noteq> [] \<and> list_all ascii_letter pre
        \<and> take 3 post = ''://'' \<and> ok (drop 3 post))"
proof
  assume "url_shape ok s"
  then obtain i where "take i s \<noteq> []" "list_all ascii_letter (take i s)"
     "take 3 (drop i s) = ''://''" "ok (drop (i + 3) s)"
    by (auto simp: url_shape_def list_ex_iff)
  then have "s = take i s @ drop i s \<and> take i s \<noteq> [] \<and> list_all ascii_letter (take i s)
     \<and> take 3 (drop i s) = ''://'' \<and> ok (drop 3 (drop i s))"
    by (simp add: add.commute)
  then show "\<exists>pre post. s = pre @ post \<and> pre \<noteq> [] \<and> list_all ascii_letter pre
        \<and> take 3 post = ''://'' \<and> ok (drop 3 post)" by blast
next
  assume "\<exists>pre post. s = pre @ post \<and> pre \<noteq> [] \<and> list_all ascii_letter pre
        \<and> take 3 post = ''://'' \<and> ok (drop 3 post)"
  then obtain pre post where s: "s = pre @ post" and p: "pre \<noteq> []" "list_all ascii_letter pre"
    "take 3 post = ''://''" "ok (drop 3 post)" by blast
  let ?i = "length pre"
  from s p have "?i < Suc (length s)" "take ?i s \<noteq> []" "list_all ascii_letter (take ?i s)"
    "take 3 (drop ?i s) = ''://''" "ok (drop (?i + 3) s)"
    by (simp_all add: add.commute)
  then show "url_shape ok s"
    unfolding url_shape_def list_ex_iff by (metis atLeastLessThan_iff set_upt zero_le)
qed

lemma URL_RE_search: "re_search URL_RE s = url_shape one_line s"
  unfolding URL_RE_def re_search_Bol match_plus[of _ "Lit _ # _"] match_lits url_shape_iff one_line_iff
    match_plus[of Dot "[Eol]"] match_Eol ascii_letter_def
  by (simp add: list_all_iff) 


subsection \<open>Classification\<close>

lemma data_type_eq:
  "data_type arg w =
     ((if is_regular_file w arg then ''file''
       else if url_shape one_line arg then ''url''
       else ''text''), log (IsFile arg) w)"
  by (simp add: data_type_def os_path_isfile_def is_regular_file_def URL_RE_search
           split: option.splits node.splits)

text \<open>
  C1, as the code has it. The checks of \<^verbatim>\<open>_data_type\<close> come in a fixed order: an argument that
  names an existing regular file is \<^verbatim>\<open>"file"\<close>, also when its text has the shape of a link;
  otherwise an argument made of one or more letters, \<^verbatim>\<open>://\<close> and a remainder of one or more
  characters other than the line feed (a single line feed may end it) is \<^verbatim>\<open>"url"\<close>;
  everything else is \<^verbatim>\<open>"text"\<close>.
\<close>

theorem data_type_order:
  "fst (data_type arg w) =
     (if is_regular_file w arg then ''file''
      else if url_shape one_line arg then ''url''
      else ''text'')"
  by (simp add: data_type_eq)

lemma url_shape_example: "url_shape one_line ''http://example.com''"
  by (simp add: url_shape_def one_line_def chomp_def ascii_letter_def newline_def upt_rec)

theorem data_type_order_witness:
  "fst (data_type ''http://example.com'' bare_world) = ''url''
   \<and> fst (data_type ''hello world'' bare_world) = ''text''
   \<and> fst (data_type ''http://x'' (bare_world\<lparr>fs := [''http://x'' \<mapsto> RegularFile ''data'' 420]\<rparr>)) = ''file''
   \<and> url_shape one_line ''http://x''"
  using data_type_order [of "''http://example.com''" bare_world]
    data_type_order [of "''hello world''" bare_world]
    data_type_order [of "''http://x''" "bare_world\<lparr>fs := [''http://x'' \<mapsto> RegularFile ''data'' 420]\<rparr>"]
  by (simp add: url_shape_def one_line_def chomp_def ascii_letter_def newline_def upt_rec
        is_regular_file_def bare_world_def)

text \<open>
  C1 as the specification words it accepts any remainder that is not empty. The argument
  \<^verbatim>\<open>http://a\<close>, line feed, \<^verbatim>\<open>b\<close> has that shape and names no file, and \<^verbatim>\<open>_data_type\<close> returns
  \<^verbatim>\<open>"text"\<close> for it: the dot of the pattern does not match a line feed.
\<close>

theorem data_type_multiline_counterexample:
  "spec_data_type bare_world two_lines = ''url'' \<and> fst (data_type two_lines bare_world) = ''text''"
  by (simp add: spec_data_type_def two_lines_def data_type_eq url_shape_def one_line_def chomp_def
        nonempty_def ascii_letter_def newline_def upt_rec is_regular_file_def bare_world_def)

subsection \<open>Dispatch\<close>

lemma remote_calls_append [simp]:
  "remote_calls (xs @ ys) = remote_calls xs @ remote_calls ys"
  by (induction xs rule: remote_calls.induct) auto

lemma decorate_PushBullet:
  "decorate (fst (PushBullet key w0)) =
     \<lparr>devices = account_devices w0,
      push_file = raise_for_status ''push_file'' (remote_method ''push_file''),
      upload_file = raise_for_status ''upload_file'' (remote_method ''upload_file''),
      push_link = raise_for_status ''push_link'' (remote_method ''push_link''),
      push_note = raise_for_status ''push_note'' (remote_method ''push_note'')\<rparr>"
  by (simp add: decorate_def PushBullet_def)

lemma wrapped_remote:
  "raise_for_status name (remote_method name) args kwargs w =
     ((if fst (reply w (remote_calls (trace w)) (Call name args kwargs))
       then Inr (snd (reply w (remote_calls (trace w)) (Call name args kwargs)))
       else Inl (PushbulletException name (snd (reply w (remote_calls (trace w)) (Call name args kwargs))))),
      log (Remote (Call name args kwargs)) w)"
  by (simp add: raise_for_status_def remote_method_def split: prod.splits)

lemma push_text:
  "push pb dev content ''text'' w =
     (case push_note pb [] (note_kwargs dev content) w of
        (Inl e, w1) \<Rightarrow> (Inl e, w1)
      | (Inr r, w1) \<Rightarrow> (Inr (), w1))"
  by (simp add: push_def note_kwargs_def)

text \<open>
  C2, as the code has it. Pushing content of kind \<^verbatim>\<open>"text"\<close> through the client of \<^verbatim>\<open>main\<close>
  adds exactly one event to the trace, one remote call of \<^verbatim>\<open>push_note\<close>. Its keyword
  arguments have the title \<^verbatim>\<open>"Note"\<close>, the content as body and, when a device was resolved,
  that device as the routing option \<^verbatim>\<open>device\<close>: the value that \<^verbatim>\<open>main\<close> resolved and handed
  over, a device of the account as the client lists it, and not the identifier of that
  device. Without a device the key \<^verbatim>\<open>device\<close> is absent.
\<close>

theorem push_note_one_call:
  "trace (snd (push (decorate (fst (PushBullet key w0))) dev content ''text'' w))
     = trace w @ [Remote (Call ''push_note'' [] (note_kwargs dev content))]
   \<and> dict_get (note_kwargs dev content) ''title'' = Some (PStr ''Note'')
   \<and> dict_get (note_kwargs dev content) ''body'' = Some (PStr content)
   \<and> dict_get (note_kwargs dev content) ''device'' = (if dev = PNone then None else Some dev)
   \<and> (dev = PNone \<longrightarrow> ''device'' \<notin> set (dict_keys (note_kwargs dev content)))
   \<and> (\<forall>d. dev = PDevice d \<longrightarrow>
          dict_get (note_kwargs dev content) ''device'' = Some (PDevice d)
          \<and> dict_get (note_kwargs dev content) ''device'' \<noteq> Some (PStr (iden d)))"
  by (simp add: push_text decorate_PushBullet wrapped_remote log_def note_kwargs_def
        dict_get_def dict_keys_def)

theorem push_note_one_call_witness:
  "remote_calls (trace (snd (push (decorate (fst (PushBullet ''key'' bare_world))) (PDevice tablet) ''hi'' ''text'' bare_world)))
     = [Call ''push_note'' [] [(''title'', PStr ''Note''), (''body'', PStr ''hi''), (''device'', PDevice tablet)]]
   \<and> remote_calls (trace (snd (push (decorate (fst (PushBullet ''key'' bare_world))) PNone ''hi'' ''text'' bare_world)))
     = [Call ''push_note'' [] [(''title'', PStr ''Note''), (''body'', PStr ''hi'')]]"
  using push_note_one_call [of "''key''" bare_world "PDevice tablet" "''hi''" bare_world]
    push_note_one_call [of "''key''" bare_world PNone "''hi''" bare_world]
  by (simp add: note_kwargs_def bare_world_def)


lemma push_url:
  "push pb dev content ''url'' w =
     (case push_link pb [] (link_kwargs dev content) w of
        (Inl e, w1) \<Rightarrow> (Inl e, w1)
      | (Inr r, w1) \<Rightarrow> (Inr (), w1))"
  by (simp add: push_def link_kwargs_def)

lemma push_file_upload_fails:
  assumes "fs w path = Some (RegularFile content m)"
    and "reply w (remote_calls (trace w)) (upload_call path content) = (False, data)"
  shows "push (decorate (fst (PushBullet key w0))) dev path ''file'' w =
           (Inl (PushbulletException ''upload_file'' data),
            log (Remote (upload_call path content)) (log (Open path ''rb'') w))"
  using assms
  by (simp add: push_def open_r_def decorate_PushBullet wrapped_remote log_def upload_call_def)

lemma push_file_push_fails:
  assumes "fs w path = Some (RegularFile content m)"
    and "reply w (remote_calls (trace w)) (upload_call path content) = (True, PDict kvs)"
    and "reply w (remote_calls (trace w) @ [upload_call path content])
           (Call ''push_file'' [] (file_kwargs dev kvs)) = (False, data)"
  shows "push (decorate (fst (PushBullet key w0))) dev path ''file'' w =
           (Inl (PushbulletException ''push_file'' data),
            log (Remote (Call ''push_file'' [] (file_kwargs dev kvs)))
              (log (Remote (upload_call path content)) (log (Open path ''rb'') w)))"
  using assms
  by (cases "dev = PNone")
     (simp_all add: push_def open_r_def decorate_PushBullet wrapped_remote log_def upload_call_def
        dict_update_def file_kwargs_def Let_def)

lemma main_push:
  assumes "parse_args (argv w) = Inr args"
    and "get_api_key w = (Inr key, w1)"
    and "select_device args (decorate (fst (PushBullet key w1))) (snd (PushBullet key w1)) = Some (Inr dev, w3)"
    and "read_message args w3 = Some ((arg, dtype), w4)"
  shows "main w =
           (case push (decorate (fst (PushBullet key w1))) dev arg dtype w4 of
              (Inl e, w5) \<Rightarrow> Some (Raise e, w5)
            | (Inr r, w5) \<Rightarrow> Some (Return 0, w5))"
  using assms by (simp add: main_def Let_def case_prod_unfold split: sum.splits)


lemma wrapped_client_eq:
  "wrapped_client key w0 =
     \<lparr>devices = account_devices w0,
      push_file = raise_for_status ''push_file'' (remote_method ''push_file''),
      upload_file = raise_for_status ''upload_file'' (remote_method ''upload_file''),
      push_link = raise_for_status ''push_link'' (remote_method ''push_link''),
      push_note = raise_for_status ''push_note'' (remote_method ''push_note'')\<rparr>"
  by (simp add: wrapped_client_def decorate_PushBullet)

lemma wrapped_op:
  assumes "(name, op) \<in> {(''push_note'', push_note), (''push_link'', push_link),
                          (''push_file'', push_file), (''upload_file'', upload_file)}"
    and "reply w (remote_calls (trace w)) (Call name args kwargs) = (success, data)"
  shows "op (wrapped_client key w0) args kwargs w =
           ((if success then Inr data else Inl (PushbulletException name data)),
            log (Remote (Call name args kwargs)) w)"
  using assms by (auto simp: wrapped_client_eq wrapped_remote)

lemma push_note_fails:
  assumes "reply w (remote_calls (trace w)) (Call ''push_note'' [] (note_kwargs dev content)) = (False, data)"
  shows "push (wrapped_client key w0) dev content ''text'' w =
           (Inl (PushbulletException ''push_note'' data),
            log (Remote (Call ''push_note'' [] (note_kwargs dev content))) w)"
  using assms by (simp add: push_text wrapped_client_eq wrapped_remote)

lemma push_link_fails:
  assumes "reply w (remote_calls (trace w)) (Call ''push_link'' [] (link_kwargs dev content)) = (False, data)"
  shows "push (wrapped_client key w0) dev content ''url'' w =
           (Inl (PushbulletException ''push_link'' data),
            log (Remote (Call ''push_link'' [] (link_kwargs dev content))) w)"
  using assms by (simp add: push_url wrapped_client_eq wrapped_remote)

text \<open>
  C3. Each of the four operations of the client of \<^verbatim>\<open>main\<close> is wrapped: when the service
  answers with success the call returns the data unchanged, and when it answers with failure
  the call raises \<^verbatim>\<open>PushbulletException\<close> with the name of the operation and the data of the
  failure. A failing note push, link push, upload or file push makes \<^verbatim>\<open>_push\<close> raise that
  exception with the failing call as the last event (after a failed upload no file push is
  sent), and an exception of \<^verbatim>\<open>_push\<close> ends \<^verbatim>\<open>main\<close> at once.
\<close>

theorem remote_failure_is_fatal:
  "((name, op) \<in> {(''push_note'', push_note), (''push_link'', push_link),
                   (''push_file'', push_file), (''upload_file'', upload_file)}
      \<and> reply w (remote_calls (trace w)) (Call name args kwargs) = (success, data)
    \<longrightarrow> op (wrapped_client key w0) args kwargs w =
          ((if success then Inr data else Inl (PushbulletException name data)),
           log (Remote (Call name args kwargs)) w))
   \<and> (reply w (remote_calls (trace w)) (Call ''push_note'' [] (note_kwargs dev content)) = (False, data)
    \<longrightarrow> push (wrapped_client key w0) dev content ''text'' w =
          (Inl (PushbulletException ''push_note'' data),
           log (Remote (Call ''push_note'' [] (note_kwargs dev content))) w))
   \<and> (reply w (remote_calls (trace w)) (Call ''push_link'' [] (link_kwargs dev content)) = (False, data)
    \<longrightarrow> push (wrapped_client key w0) dev content ''url'' w =
          (Inl (PushbulletException ''push_link'' data),
           log (Remote (Call ''push_link'' [] (link_kwargs dev content))) w))
   \<and> (fs w path = Some (RegularFile content m)
      \<and> reply w (remote_calls (trace w)) (upload_call path content) = (False, data)
    \<longrightarrow> push (wrapped_client key w0) dev path ''file'' w =
          (Inl (PushbulletException ''upload_file'' data),
           log (Remote (upload_call path content)) (log (Open path ''rb'') w)))
   \<and> (fs w path = Some (RegularFile content m)
      \<and> reply w (remote_calls (trace w)) (upload_call path content) = (True, PDict kvs)
      \<and> reply w (remote_calls (trace w) @ [upload_call path content])
           (Call ''push_file'' [] (file_kwargs dev kvs)) = (False, data)
    \<longrightarrow> push (wrapped_client key w0) dev path ''file'' w =
          (Inl (PushbulletException ''push_file'' data),
           log (Remote (Call ''push_file'' [] (file_kwargs dev kvs)))
             (log (Remote (upload_call path content)) (log (Open path ''rb'') w))))
   \<and> (parse_args (argv v) = Inr parsed
      \<and> get_api_key v = (Inr k, v1)
      \<and> select_device parsed (wrapped_client k v1) (snd (PushBullet k v1)) = Some (Inr d, v3)
      \<and> read_message parsed v3 = Some ((arg, dtype), v4)
      \<and> push (wrapped_client k v1) d arg dtype v4 = (Inl e, v5)
    \<longrightarrow> main v = Some (Raise e, v5))"
  using wrapped_op [of name op w args kwargs success data key w0]
    push_note_fails [of w dev content data key w0]
    push_link_fails [of w dev content data key w0]
    push_file_upload_fails [of w path content m data key w0 dev]
    push_file_push_fails [of w path content m kvs dev data key w0]
    main_push [of v parsed k v1 d v3 arg dtype v4]
  unfolding wrapped_client_def by simp


lemma failing_parse:
  "parse_args (argv failing_world) = Inr \<lparr>msg = [''hi''], all = True, interactive = False, device = None\<rparr>"
  by (simp add: failing_world_def bare_world_def parse_examples)

lemma failing_key:
  "get_api_key failing_world =
     (Inr ''ABC123'', failing_world\<lparr>trace := [IsFile ''/home/u/.pushbulletkey'', Open ''/home/u/.pushbulletkey'' ''r'']\<rparr>)"
  by (simp add: failing_world_def bare_world_def get_api_key_def os_path_isfile_def open_r_def log_def)

lemma failing_select:
  "select_device \<lparr>msg = [''hi''], all = True, interactive = False, device = None\<rparr> pb w = Some (Inr PNone, w)"
  by (simp add: select_device_def)

lemma failing_message:
  "fs w ''hi'' = None \<Longrightarrow>
   read_message \<lparr>msg = [''hi''], all = True, interactive = False, device = None\<rparr> w
     = Some ((''hi'', ''text''), log (IsFile ''hi'') w)"
  by (simp add: read_message_def data_type_eq is_regular_file_def url_shape_def upt_rec Let_def)

theorem remote_failure_is_fatal_witness:
  "map_option fst (main failing_world) = Some (Raise (PushbulletException ''push_note'' (PStr ''boom'')))
   \<and> push_link (wrapped_client ''k'' bare_world) [] [] bare_world
       = (Inr PNone, log (Remote (Call ''push_link'' [] [])) bare_world)
   \<and> fst (push (wrapped_client ''k'' bare_world) PNone ''http://x'' ''url'' failing_world)
       = Inl (PushbulletException ''push_link'' (PStr ''boom''))
   \<and> push (wrapped_client ''k'' bare_world) PNone ''/tmp/f'' ''file'' failing_file_world
       = (Inl (PushbulletException ''upload_file'' (PStr ''boom'')),
          failing_file_world\<lparr>trace := [Open ''/tmp/f'' ''rb'', Remote (upload_call ''/tmp/f'' ''data'')]\<rparr>)
   \<and> push (wrapped_client ''k'' bare_world) PNone ''/tmp/f'' ''file'' half_failing_world
       = (Inl (PushbulletException ''push_file'' (PStr ''late'')),
          half_failing_world\<lparr>trace := [Open ''/tmp/f'' ''rb'', Remote (upload_call ''/tmp/f'' ''data''),
                                       Remote (Call ''push_file'' [] [(''file_name'', PStr ''f'')])]\<rparr>)"
proof -
  let ?v1 = "failing_world\<lparr>trace := [IsFile ''/home/u/.pushbulletkey'', Open ''/home/u/.pushbulletkey'' ''r'']\<rparr>"
  let ?v3 = "snd (PushBullet ''ABC123'' ?v1)"
  let ?v4 = "log (IsFile ''hi'') ?v3"
  let ?ns = "\<lparr>msg = [''hi''], all = True, interactive = False, device = None\<rparr>"
  have r: "reply ?v4 (remote_calls (trace ?v4)) (Call ''push_note'' [] (note_kwargs PNone ''hi''))
             = (False, PStr ''boom'')"
    by (simp add: failing_world_def bare_world_def PushBullet_def log_def)
  have m: "read_message ?ns ?v3 = Some ((''hi'', ''text''), ?v4)"
    by (rule failing_message) (simp add: failing_world_def bare_world_def PushBullet_def log_def)
  have b: "reply bare_world (remote_calls (trace bare_world)) (Call ''push_link'' [] []) = (True, PNone)"
    by (simp add: bare_world_def)
  note T = remote_failure_is_fatal [where w = ?v4 and dev = PNone and content = "''hi''"
      and data = "PStr ''boom''" and key = "''ABC123''" and ?w0.0 = ?v1
      and v = failing_world and parsed = ?ns and k = "''ABC123''" and ?v1.0 = ?v1 and d = PNone
      and ?v3.0 = ?v3 and arg = "''hi''" and dtype = "''text''" and ?v4.0 = ?v4
      and e = "PushbulletException ''push_note'' (PStr ''boom'')"
      and ?v5.0 = "log (Remote (Call ''push_note'' [] (note_kwargs PNone ''hi''))) ?v4"]
  from T r m failing_parse failing_key failing_select [of "wrapped_client ''ABC123'' ?v1" ?v3]
  have "main failing_world = Some (Raise (PushbulletException ''push_note'' (PStr ''boom'')),
          log (Remote (Call ''push_note'' [] (note_kwargs PNone ''hi''))) ?v4)"
    by simp
  then have 1: "map_option fst (main failing_world)
       = Some (Raise (PushbulletException ''push_note'' (PStr ''boom'')))"
    by simp
  from remote_failure_is_fatal [where name = "''push_link''" and op = push_link and w = bare_world
      and args = "[]" and kwargs = "[]" and success = True and data = PNone and key = "''k''"
      and ?w0.0 = bare_world] b
  have 2: "push_link (wrapped_client ''k'' bare_world) [] [] bare_world
       = (Inr PNone, log (Remote (Call ''push_link'' [] [])) bare_world)"
    by simp
  have "reply failing_world (remote_calls (trace failing_world))
          (Call ''push_link'' [] (link_kwargs PNone ''http://x'')) = (False, PStr ''boom'')"
    by (simp add: failing_world_def bare_world_def)
  with remote_failure_is_fatal [where w = failing_world and dev = PNone and content = "''http://x''"
      and data = "PStr ''boom''" and key = "''k''" and ?w0.0 = bare_world]
  have 3: "fst (push (wrapped_client ''k'' bare_world) PNone ''http://x'' ''url'' failing_world)
       = Inl (PushbulletException ''push_link'' (PStr ''boom''))"
    by simp
  have "fs failing_file_world ''/tmp/f'' = Some (RegularFile ''data'' 420)"
    "reply failing_file_world (remote_calls (trace failing_file_world)) (upload_call ''/tmp/f'' ''data'')
       = (False, PStr ''boom'')"
    by (simp_all add: failing_file_world_def failing_world_def bare_world_def)
  with remote_failure_is_fatal [where w = failing_file_world and dev = PNone and path = "''/tmp/f''"
      and content = "''data''" and m = 420 and data = "PStr ''boom''" and key = "''k''"
      and ?w0.0 = bare_world]
  have "push (wrapped_client ''k'' bare_world) PNone ''/tmp/f'' ''file'' failing_file_world
       = (Inl (PushbulletException ''upload_file'' (PStr ''boom'')),
          log (Remote (upload_call ''/tmp/f'' ''data'')) (log (Open ''/tmp/f'' ''rb'') failing_file_world))"
    by simp
  then have 4: "push (wrapped_client ''k'' bare_world) PNone ''/tmp/f'' ''file'' failing_file_world
       = (Inl (PushbulletException ''upload_file'' (PStr ''boom'')),
          failing_file_world\<lparr>trace := [Open ''/tmp/f'' ''rb'', Remote (upload_call ''/tmp/f'' ''data'')]\<rparr>)"
    by (simp add: log_def failing_file_world_def failing_world_def bare_world_def)
  have "fs half_failing_world ''/tmp/f'' = Some (RegularFile ''data'' 420)"
    "reply half_failing_world (remote_calls (trace half_failing_world)) (upload_call ''/tmp/f'' ''data'')
       = (True, PDict [(''file_name'', PStr ''f'')])"
    "reply half_failing_world (remote_calls (trace half_failing_world) @ [upload_call ''/tmp/f'' ''data''])
           (Call ''push_file'' [] (file_kwargs PNone [(''file_name'', PStr ''f'')])) = (False, PStr ''late'')"
    by (simp_all add: half_failing_world_def failing_file_world_def failing_world_def bare_world_def)
  with remote_failure_is_fatal [where w = half_failing_world and dev = PNone and path = "''/tmp/f''"
      and content = "''data''" and m = 420 and kvs = "[(''file_name'', PStr ''f'')]"
      and data = "PStr ''late''" and key = "''k''" and ?w0.0 = bare_world]
  have "push (wrapped_client ''k'' bare_world) PNone ''/tmp/f'' ''file'' half_failing_world
       = (Inl (PushbulletException ''push_file'' (PStr ''late'')),
           log (Remote (Call ''push_file'' [] (file_kwargs PNone [(''file_name'', PStr ''f'')])))
             (log (Remote (upload_call ''/tmp/f'' ''data'')) (log (Open ''/tmp/f'' ''rb'') half_failing_world)))"
    by simp
  then have 5: "push (wrapped_client ''k'' bare_world) PNone ''/tmp/f'' ''file'' half_failing_world
       = (Inl (PushbulletException ''push_file'' (PStr ''late'')),
          half_failing_world\<lparr>trace := [Open ''/tmp/f'' ''rb'', Remote (upload_call ''/tmp/f'' ''data''),
                                       Remote (Call ''push_file'' [] [(''file_name'', PStr ''f'')])]\<rparr>)"
    by (simp add: log_def file_kwargs_def half_failing_world_def failing_file_world_def
          failing_world_def bare_world_def)
  from 1 2 3 4 5 show ?thesis by blast
qed

subsection \<open>The key file\<close>

lemma strip_append_newline: "strip (xs @ [newline]) = strip xs"
proof (cases "list_all isspace xs")
  case True
  then have "\<forall>x\<in>set xs. isspace x" by (simp add: list_all_iff)
  moreover have "isspace newline" by (simp add: isspace_def newline_def)
  ultimately have "\<forall>x\<in>set (xs @ [newline]). isspace x" by simp
  then have "dropWhile isspace (xs @ [newline]) = []" by (simp only: dropWhile_eq_Nil_conv)
  moreover from \<open>\<forall>x\<in>set xs. isspace x\<close> have "dropWhile isspace xs = []"
    by (simp only: dropWhile_eq_Nil_conv)
  ultimately show ?thesis by (simp only: strip_def)
next
  case False
  then obtain x where "x \<in> set xs" "\<not> isspace x" by (auto simp: list_all_iff)
  then have "dropWhile isspace (xs @ [newline]) = dropWhile isspace xs @ [newline]"
    by (simp add: dropWhile_append1)
  then show ?thesis by (simp add: strip_def isspace_def newline_def)
qed

lemma strip_chomp: "strip (chomp l) = strip l"
proof (cases "l \<noteq> [] \<and> last l = newline")
  case True
  then have "l = butlast l @ [newline]" by (metis append_butlast_last_id)
  then have "strip l = strip (butlast l)" by (metis strip_append_newline)
  with True show ?thesis by (simp add: chomp_def)
next
  case False
  then show ?thesis by (auto simp: chomp_def)
qed

lemma private_files_eq:
  "private_files body w =
     (fst (body (log (Umask 63) (w\<lparr>umask := 63\<rparr>))),
      log (Umask (umask w)) ((snd (body (log (Umask 63) (w\<lparr>umask := 63\<rparr>))))\<lparr>umask := umask w\<rparr>))"
  by (simp add: private_files_def os_umask_def case_prod_unfold Let_def)

lemma get_api_key_existing:
  assumes "fs w (key_path w) = Some (RegularFile content m)"
  shows "get_api_key w = (Inr content, log (Open (key_path w) ''r'') (log (IsFile (key_path w)) w))"
  using assms by (simp add: get_api_key_def os_path_isfile_def open_r_def log_def)

lemma get_api_key_eof:
  assumes "\<not> is_regular_file w (key_path w)" and "stdin w = Eof"
  shows "get_api_key w =
     (Inl EOFError, w\<lparr>trace := trace w @ [IsFile (key_path w), Print ''What's your API key?'',
         Print ''Find it at <https://www.pushbullet.com/account>.'', ReadLine ''> '']\<rparr>)"
  using assms
  by (simp add: get_api_key_def os_path_isfile_def is_regular_file_def read_line_def raw_input_def
        print_def log_def Let_def split: option.splits node.splits)

lemma get_api_key_new:
  assumes "fs w (key_path w) = None" and "stdin w = Line l rest"
  shows "get_api_key w =
     (if length (strip l) \<le> free_space w then
        (Inr (strip l),
         w\<lparr>fs := (fs w)(key_path w \<mapsto> RegularFile (strip l) 384),
           free_space := free_space w - length (strip l), stdin := rest,
           trace := trace w @ [IsFile (key_path w), Print ''What's your API key?'',
             Print ''Find it at <https://www.pushbullet.com/account>.'', ReadLine ''> '',
             Umask 63, Open (key_path w) ''w'', Write (key_path w) (strip l), Umask (umask w)]\<rparr>)
      else
        (Inl (IOError (key_path w)),
         w\<lparr>fs := (fs w)(key_path w \<mapsto> RegularFile [] 384), stdin := rest,
           trace := trace w @ [IsFile (key_path w), Print ''What's your API key?'',
             Print ''Find it at <https://www.pushbullet.com/account>.'', ReadLine ''> '',
             Umask 63, Open (key_path w) ''w'', Write (key_path w) (strip l), Umask (umask w)]\<rparr>))"
  using assms
  by (simp add: get_api_key_def os_path_isfile_def read_line_def raw_input_def
        print_def log_def Let_def private_files_eq open_w_def file_write_def strip_chomp)

lemma get_api_key_directory:
  assumes "fs w (key_path w) = Some Directory" and "stdin w = Line l rest"
  shows "get_api_key w =
        (Inl (IOError (key_path w)),
         w\<lparr>stdin := rest,
           trace := trace w @ [IsFile (key_path w), Print ''What's your API key?'',
             Print ''Find it at <https://www.pushbullet.com/account>.'', ReadLine ''> '',
             Umask 63, Open (key_path w) ''w'', Umask (umask w)]\<rparr>)"
  using assms
  by (simp add: get_api_key_def os_path_isfile_def read_line_def raw_input_def
        print_def log_def Let_def private_files_eq open_w_def file_write_def strip_chomp)




lemma get_api_key_umask: "umask (snd (get_api_key w)) = umask w"
proof (cases "stdin w")
  case Eof
  show ?thesis
  proof (cases "fs w (key_path w)")
    case None
    with Eof show ?thesis by (simp add: get_api_key_eof is_regular_file_def)
  next
    case (Some n)
    with Eof show ?thesis
      by (cases n) (simp_all add: get_api_key_eof get_api_key_existing is_regular_file_def log_def)
  qed
next
  case (Line l rest)
  show ?thesis
  proof (cases "fs w (key_path w)")
    case None
    with Line show ?thesis by (simp add: get_api_key_new)
  next
    case (Some n)
    with Line show ?thesis
      by (cases n) (simp_all add: get_api_key_directory get_api_key_existing log_def)
  qed
qed

lemma get_api_key_prompted_events:
  assumes "\<not> is_regular_file w (key_path w)" and "stdin w = Line l rest"
  shows "new_events w (snd (get_api_key w)) =
     [IsFile (key_path w), Print ''What's your API key?'',
      Print ''Find it at <https://www.pushbullet.com/account>.'', ReadLine ''> '',
      Umask 63, Open (key_path w) ''w'']
     @ (if fs w (key_path w) = None then [Write (key_path w) (strip l)] else [])
     @ [Umask (umask w)]"
proof (cases "fs w (key_path w)")
  case None
  with assms show ?thesis by (simp add: get_api_key_new new_events_def)
next
  case (Some n)
  with assms show ?thesis
    by (cases n) (simp_all add: get_api_key_directory is_regular_file_def new_events_def)
qed

lemma get_api_key_quiet_events:
  assumes "is_regular_file w (key_path w) \<or> stdin w = Eof"
  shows "Umask m \<notin> set (new_events w (snd (get_api_key w)))"
proof (cases "is_regular_file w (key_path w)")
  case True
  then obtain content md where "fs w (key_path w) = Some (RegularFile content md)"
    by (auto simp: is_regular_file_def split: option.splits node.splits)
  then show ?thesis by (simp add: get_api_key_existing new_events_def log_def)
next
  case False
  with assms show ?thesis by (simp add: get_api_key_eof new_events_def)
qed

text \<open>
  C8. \<^verbatim>\<open>private_files\<close> runs its body under the mask \<^verbatim>\<open>0o77\<close> (63) and puts the previous mask
  back whatever the body did, also when it raised. In \<^verbatim>\<open>_get_api_key\<close> the mask is changed
  only around the opening and writing of the key file: the mask after the call is the mask
  before it on every path, a call that asks for the key changes the mask right before
  opening the file and restores it right after the write (or after the failed opening),
  and a call that finds the file or hits the end of input never touches the mask.
\<close>

theorem umask_restored:
  "private_files body w =
     (fst (body (log (Umask 63) (w\<lparr>umask := 63\<rparr>))),
      log (Umask (umask w)) ((snd (body (log (Umask 63) (w\<lparr>umask := 63\<rparr>))))\<lparr>umask := umask w\<rparr>))
   \<and> umask (snd (private_files body w)) = umask w
   \<and> umask (snd (get_api_key v)) = umask v
   \<and> (\<not> is_regular_file v (key_path v) \<and> stdin v = Line l rest \<longrightarrow>
        new_events v (snd (get_api_key v)) =
          [IsFile (key_path v), Print ''What's your API key?'',
           Print ''Find it at <https://www.pushbullet.com/account>.'', ReadLine ''> '',
           Umask 63, Open (key_path v) ''w'']
          @ (if fs v (key_path v) = None then [Write (key_path v) (strip l)] else [])
          @ [Umask (umask v)])
   \<and> (is_regular_file v (key_path v) \<or> stdin v = Eof \<longrightarrow>
        Umask m \<notin> set (new_events v (snd (get_api_key v))))"
  using private_files_eq [of body w] get_api_key_umask [of v]
    get_api_key_prompted_events [of v l rest] get_api_key_quiet_events [of v m]
  by (simp add: log_def)

theorem umask_restored_witness:
  "fst (get_api_key full_disk_world) = Inl (IOError ''/home/u/.pushbulletkey'')
   \<and> umask full_disk_world = 18
   \<and> umask (snd (get_api_key full_disk_world)) = 18
   \<and> new_events full_disk_world (snd (get_api_key full_disk_world)) =
       [IsFile ''/home/u/.pushbulletkey'', Print ''What's your API key?'',
        Print ''Find it at <https://www.pushbullet.com/account>.'', ReadLine ''> '',
        Umask 63, Open ''/home/u/.pushbulletkey'' ''w'', Write ''/home/u/.pushbulletkey'' ''ABC123'',
        Umask 18]
   \<and> Umask 63 \<notin> set (new_events bare_world (snd (get_api_key bare_world)))"
proof -
  have s: "strip (''ABC123'' @ [newline]) = ''ABC123''"
    by (simp add: strip_def isspace_def newline_def)
  have f: "fst (get_api_key full_disk_world) = Inl (IOError ''/home/u/.pushbulletkey'')"
    using get_api_key_new [of full_disk_world "''ABC123'' @ [newline]" Eof] s
    by (simp add: full_disk_world_def bare_world_def)
  from umask_restored [of "\<lambda>x. (Inr (), x)" bare_world full_disk_world "''ABC123'' @ [newline]" Eof 63]
    umask_restored [of "\<lambda>x. (Inr (), x)" bare_world bare_world "[]" Eof 63] s f
  show ?thesis
    by (simp add: full_disk_world_def bare_world_def is_regular_file_def)
qed

subsection \<open>Parsing the command line\<close>

text \<open>The loop on a command line in plain form.\<close>

lemma conflict_None: "conflict a before = None \<longleftrightarrow> (\<forall>b\<in>set before. b = a)"
proof -
  have "\<And>b. b \<in> set [ActAll, ActInteractive, ActDevice]"
    by (case_tac b) simp_all
  then show ?thesis unfolding conflict_def find_None_iff by blast
qed

lemma conflict_Some: "conflict a before = Some b \<Longrightarrow> b \<noteq> a \<and> b \<in> set before"
  by (auto simp: conflict_def split: if_splits)
























text \<open>At most one option of the group is ever taken.\<close>

lemma take_action_one_option:
  assumes "one_option st" and "take_action act args st = Inr st'"
  shows "one_option st'" and "extras st' = extras st" and "positional st' = positional st"
proof -
  from assms(2) obtain a where act: "act = Exclusive a" by (cases act) auto
  with assms(2) have c: "conflict a (seen st) = None"
    and st': "st' = st\<lparr>ns := store a args (ns st), seen := a # seen st\<rparr>"
    by (auto split: option.splits)
  from c have s: "\<forall>b\<in>set (seen st). b = a" by (simp add: conflict_None)
  from assms(1) s show "one_option st'"
    unfolding st' one_option_def by (cases a) auto
  show "extras st' = extras st" "positional st' = positional st" by (simp_all add: st')
qed

lemma take_actions_one_option:
  "one_option st \<Longrightarrow> take_actions action_tuples st = Inr st' \<Longrightarrow> one_option st'"
proof (induction action_tuples arbitrary: st)
  case Nil
  then show ?case by simp
next
  case (Cons x xs)
  obtain act args where x: "x = (act, args)" by (cases x)
  from Cons.prems(2) x obtain st1 where 1: "take_action act args st = Inr st1"
    and 2: "take_actions xs st1 = Inr st'"
    by (auto split: sum.splits)
  from take_action_one_option(1) [OF Cons.prems(1) 1] 2 show ?case by (rule Cons.IH)
qed

lemma parse_loop_one_option:
  "one_option st \<Longrightarrow> parse_loop st items = Inr st' \<Longrightarrow> one_option st'"
proof (induction st items arbitrary: st' rule: parse_loop.induct)
  case (1 st)
  then show ?case by simp
next
  case (2 st s rest)
  show ?case
  proof (cases "positional st = Filled")
    case True
    have "one_option (st\<lparr>extras := extras st @ [s]\<rparr>)"
      using "2.prems"(1) by (simp add: one_option_def)
    with 2 True show ?thesis by simp
  next
    case False
    have "one_option (st\<lparr>ns := (ns st)\<lparr>msg := msg (ns st) @ [s]\<rparr>, positional := Filling\<rparr>)"
      using "2.prems"(1) by (simp add: one_option_def)
    with 2 False show ?thesis by simp
  qed
next
  case (3 st s rest)
  show ?case
  proof (cases "positional st = Filled")
    case True
    have "one_option (st\<lparr>extras := extras st @ [s]\<rparr>)"
      using "3.prems"(1) by (simp add: one_option_def)
    with 3 True show ?thesis by simp
  next
    case False
    have "one_option (st\<lparr>positional := Filling\<rparr>)"
      using "3.prems"(1) by (simp add: one_option_def)
    with 3 False show ?thesis by simp
  qed
next
  case (4 st s os sep explicit_arg rest)
  have "one_option ((close_run st)\<lparr>extras := extras st @ [s]\<rparr>)"
    using "4.prems"(1) by (simp add: one_option_def close_run_def)
  with 4 show ?case by simp
next
  case (5 st s act os sep explicit_arg rest)
  from "5.prems"(2) obtain action_tuples extra arg_count st1
    where c: "consume_optional act os sep explicit_arg [] rest = Inr (action_tuples, extra, arg_count)"
      and t: "take_actions action_tuples ((close_run st)\<lparr>extras := extras st @ extra\<rparr>) = Inr st1"
      and l: "parse_loop st1 (drop arg_count rest) = Inr st'"
    by (auto simp del: consume_optional.simps split: sum.splits prod.splits)
  have "one_option ((close_run st)\<lparr>extras := extras st @ extra\<rparr>)"
    using "5.prems"(1) by (simp add: one_option_def close_run_def)
  then have "one_option st1" using t by (rule take_actions_one_option)
  with "5.IH" [OF c refl refl t] l show ?case by blast
qed

lemma parse_args_one_option:
  assumes "parse_args raw = Inr a"
  shows "\<not> (all a \<and> interactive a)" "\<not> (all a \<and> device a \<noteq> None)"
    "\<not> (interactive a \<and> device a \<noteq> None)"
proof -
  let ?st = "\<lparr>ns = \<lparr>msg = [], all = False, interactive = False, device = None\<rparr>,
              seen = [], positional = Unfilled, extras = []\<rparr>"
  from assms obtain items st' where "parse_loop ?st items = Inr st'" and a: "a = ns st'"
    by (auto simp: parse_args_def split: sum.splits if_splits)
  moreover have "one_option ?st" by (simp add: one_option_def)
  ultimately have o: "one_option st'" using parse_loop_one_option by blast
  then have "\<forall>x\<in>set (seen st'). \<forall>y\<in>set (seen st'). x = y" by (simp add: one_option_def)
  with o show "\<not> (all a \<and> interactive a)" "\<not> (all a \<and> device a \<noteq> None)"
    "\<not> (interactive a \<and> device a \<noteq> None)"
    unfolding a one_option_def by fastforce+
qed





subsection \<open>Selecting the device\<close>

lemma map_of_dict_set: "map_of (dict_set k v d) = (map_of d)(k \<mapsto> v)"
  by (induction d) (auto simp: fun_eq_iff)

lemma keys_dict_set:
  "map fst (dict_set k v d) = (if k \<in> fst ` set d then map fst d else map fst d @ [k])"
  by (induction d) force+

lemma keys_dict_set_image: "fst ` set (dict_set k v d) = insert k (fst ` set d)"
proof -
  have "set (map fst (dict_set k v d)) = insert k (fst ` set d)"
    unfolding keys_dict_set by auto
  then show ?thesis by simp
qed

lemma distinct_dict_set: "distinct (map fst d) \<Longrightarrow> distinct (map fst (dict_set k v d))"
  unfolding keys_dict_set by auto

lemma by_names_fold:
  "map_of (foldl (\<lambda>acc d. dict_set (nickname d) d acc) acc devs) name =
     (if name \<in> nickname ` set devs then Some (last [d\<leftarrow>devs. nickname d = name])
      else map_of acc name)"
proof (induction devs arbitrary: acc)
  case Nil
  then show ?case by simp
next
  case (Cons x devs)
  show ?case
  proof (cases "name \<in> nickname ` set devs")
    case True
    then have "[d\<leftarrow>devs. nickname d = name] \<noteq> []"
      by (auto simp: filter_empty_conv)
    with True show ?thesis by (simp add: Cons.IH)
  next
    case False
    then have e: "[d\<leftarrow>devs. nickname d = name] = []"
      by (auto simp: filter_empty_conv)
    show ?thesis
    proof (cases "nickname x = name")
      case True
      with False e show ?thesis by (simp add: Cons.IH map_of_dict_set)
    next
      case n: False
      then have "name \<noteq> nickname x" by blast
      with n False e show ?thesis by (simp add: Cons.IH map_of_dict_set)
    qed
  qed
qed

lemma by_names_keys_fold:
  "fst ` set (foldl (\<lambda>acc d. dict_set (nickname d) d acc) acc devs)
     = fst ` set acc \<union> nickname ` set devs"
  by (induction devs arbitrary: acc) (simp_all add: keys_dict_set_image)

lemma by_names_distinct_fold:
  "distinct (map fst acc) \<Longrightarrow>
   distinct (map fst (foldl (\<lambda>acc d. dict_set (nickname d) d acc) acc devs))"
  by (induction devs arbitrary: acc) (auto simp: distinct_dict_set)

lemma devices_by_names_get:
  "dict_get (devices_by_names devs) name =
     (if name \<in> nickname ` set devs then Some (last [d\<leftarrow>devs. nickname d = name]) else None)"
  by (simp add: dict_get_def devices_by_names_def by_names_fold)

lemma devices_by_names_keys:
  "set (dict_keys (devices_by_names devs)) = nickname ` set devs"
  "distinct (dict_keys (devices_by_names devs))"
  using by_names_keys_fold [of "[]" devs] by_names_distinct_fold [of "[]" devs]
  by (simp_all add: dict_keys_def devices_by_names_def)

lemma last_filter_named:
  assumes "name \<in> nickname ` set devs"
  shows "last [d\<leftarrow>devs. nickname d = name] \<in> set devs"
    and "nickname (last [d\<leftarrow>devs. nickname d = name]) = name"
proof -
  from assms have ne: "[d\<leftarrow>devs. nickname d = name] \<noteq> []"
    by (auto simp: filter_empty_conv)
  then have "last [d\<leftarrow>devs. nickname d = name] \<in> set [d\<leftarrow>devs. nickname d = name]"
    by (rule last_in_set)
  then show "last [d\<leftarrow>devs. nickname d = name] \<in> set devs"
    and "nickname (last [d\<leftarrow>devs. nickname d = name]) = name"
    by simp_all
qed

lemma select_device_named:
  assumes "\<not> all a" and "\<not> interactive a" and "device a = Some name" and "name \<noteq> []"
    and "devices pb \<noteq> []"
  shows "select_device a pb w =
     (if name \<in> nickname ` set (devices pb)
      then Some (Inr (PDevice (last [d\<leftarrow>devices pb. nickname d = name])), w)
      else Some (Inl (Return 1), print (unknown_device_line name (devices pb)) w))"
  using assms
  by (cases "devices pb")
     (simp_all add: select_device_def devices_by_names_get unknown_device_line_def)

lemma select_device_all: "all a \<Longrightarrow> select_device a pb w = Some (Inr PNone, w)"
  by (simp add: select_device_def)

lemma select_device_no_devices:
  "\<not> all a \<Longrightarrow> devices pb = [] \<Longrightarrow>
   select_device a pb w =
     Some (Inl (Return 1),
           print ''Add one at <https://www.pushbullet.com/>.'' (print ''You don't have any devices!'' w))"
  by (simp add: select_device_def)

lemma select_device_empty_name:
  "\<not> all a \<Longrightarrow> \<not> interactive a \<Longrightarrow> device a = Some [] \<Longrightarrow> devices pb \<noteq> [] \<Longrightarrow>
   select_device a pb w = Some (Inr PNone, w)"
  by (cases "devices pb") (simp_all add: select_device_def)

lemma main_select:
  assumes "parse_args (argv w) = Inr a" and "get_api_key w = (Inr key, w1)"
  shows "main w =
     (case select_device a (wrapped_client key w1) (log (Connect key) w1) of
        None \<Rightarrow> None
      | Some (Inl out, w3) \<Rightarrow> Some (out, w3)
      | Some (Inr dev, w3) \<Rightarrow>
          (case read_message a w3 of
             None \<Rightarrow> None
           | Some ((arg, dtype), w4) \<Rightarrow>
               (case push (wrapped_client key w1) dev arg dtype w4 of
                  (Inl e, w5) \<Rightarrow> Some (Raise e, w5)
                | (Inr r, w5) \<Rightarrow> Some (Return 0, w5))))"
  using assms unfolding main_def wrapped_client_def PushBullet_def
  by (simp add: Let_def cong: option.case_cong prod.case_cong sum.case_cong)

lemma parsed_device_exclusive:
  assumes "parse_args raw = Inr a" and "device a = Some name"
  shows "\<not> all a \<and> \<not> interactive a"
  using parse_args_one_option [OF assms(1)] assms(2) by simp

lemma keyed_key:
  "fs w (key_path w) = Some (RegularFile content m) \<Longrightarrow>
   get_api_key w = (Inr content, w\<lparr>trace := trace w @ [IsFile (key_path w), Open (key_path w) ''r'']\<rparr>)"
  by (simp add: get_api_key_existing log_def)

lemma read_message_hi:
  "msg a = [''hi''] \<Longrightarrow> fs w ''hi'' = None \<Longrightarrow>
   read_message a w = Some ((''hi'', ''text''), log (IsFile ''hi'') w)"
  by (simp add: read_message_def data_type_eq is_regular_file_def url_shape_def upt_rec Let_def)

text \<open>
  C6. When \<^verbatim>\<open>--all\<close> is not set and the account has no device, \<^verbatim>\<open>main\<close> prints the two lines
  about the missing devices and returns 1; after the client was created nothing else
  happens, so the message is not classified and nothing is pushed. When \<^verbatim>\<open>--all\<close> is set the
  device list is not looked at: no device is selected, without any output, and \<^verbatim>\<open>main\<close> goes
  on to read the message and push it with no device.
\<close>

theorem no_devices_check:
  assumes "parse_args (argv w) = Inr a" and "get_api_key w = (Inr key, w1)"
  shows "(\<not> all a \<and> account_devices w1 = [] \<longrightarrow>
            main w = Some (Return 1,
                           print ''Add one at <https://www.pushbullet.com/>.''
                             (print ''You don't have any devices!'' (log (Connect key) w1))))
       \<and> (all a \<longrightarrow>
            select_device a (wrapped_client key w1) (log (Connect key) w1)
              = Some (Inr PNone, log (Connect key) w1)
            \<and> main w =
                (case read_message a (log (Connect key) w1) of
                   None \<Rightarrow> None
                 | Some ((arg, dtype), w4) \<Rightarrow>
                     (case push (wrapped_client key w1) PNone arg dtype w4 of
                        (Inl e, w5) \<Rightarrow> Some (Raise e, w5)
                      | (Inr r, w5) \<Rightarrow> Some (Return 0, w5))))"
proof -
  have d: "devices (wrapped_client key w1) = account_devices w1"
    by (simp add: wrapped_client_eq)
  show ?thesis
    using main_select [OF assms] d
      select_device_no_devices [of a "wrapped_client key w1" "log (Connect key) w1"]
      select_device_all [of a "wrapped_client key w1" "log (Connect key) w1"]
    by simp
qed

theorem no_devices_check_witness:
  "main no_devices_world =
     Some (Return 1,
           no_devices_world\<lparr>trace :=
             [IsFile ''/home/u/.pushbulletkey'', Open ''/home/u/.pushbulletkey'' ''r'',
              Connect ''ABC123'', Print ''You don't have any devices!'',
              Print ''Add one at <https://www.pushbullet.com/>.'']\<rparr>)
   \<and> main all_no_devices_world =
     Some (Return 0,
           all_no_devices_world\<lparr>trace :=
             [IsFile ''/home/u/.pushbulletkey'', Open ''/home/u/.pushbulletkey'' ''r'',
              Connect ''ABC123'', IsFile ''hi'',
              Remote (Call ''push_note'' [] [(''title'', PStr ''Note''), (''body'', PStr ''hi'')])]\<rparr>)"
proof -
  let ?n = "no_devices_world"
  let ?a = "all_no_devices_world"
  have pn: "parse_args (argv ?n) = Inr \<lparr>msg = [''hi''], all = False, interactive = False, device = None\<rparr>"
    by (simp add: no_devices_world_def keyed_world_def bare_world_def parse_examples)
  have pa: "parse_args (argv ?a) = Inr \<lparr>msg = [''hi''], all = True, interactive = False, device = None\<rparr>"
    by (simp add: all_no_devices_world_def keyed_world_def bare_world_def parse_examples)
  have kn: "get_api_key ?n = (Inr ''ABC123'', ?n\<lparr>trace := trace ?n @ [IsFile (key_path ?n), Open (key_path ?n) ''r'']\<rparr>)"
    by (rule keyed_key [where m = 384]) (simp add: no_devices_world_def keyed_world_def bare_world_def)
  have ka: "get_api_key ?a = (Inr ''ABC123'', ?a\<lparr>trace := trace ?a @ [IsFile (key_path ?a), Open (key_path ?a) ''r'']\<rparr>)"
    by (rule keyed_key [where m = 384]) (simp add: all_no_devices_world_def keyed_world_def bare_world_def)
  have 1: "main ?n = Some (Return 1,
           ?n\<lparr>trace :=
             [IsFile ''/home/u/.pushbulletkey'', Open ''/home/u/.pushbulletkey'' ''r'',
              Connect ''ABC123'', Print ''You don't have any devices!'',
              Print ''Add one at <https://www.pushbullet.com/>.'']\<rparr>)"
    using no_devices_check [OF pn kn]
    by (simp add: no_devices_world_def keyed_world_def bare_world_def print_def log_def)
  have 2: "main ?a = Some (Return 0,
           ?a\<lparr>trace :=
             [IsFile ''/home/u/.pushbulletkey'', Open ''/home/u/.pushbulletkey'' ''r'',
              Connect ''ABC123'', IsFile ''hi'',
              Remote (Call ''push_note'' [] [(''title'', PStr ''Note''), (''body'', PStr ''hi'')])]\<rparr>)"
    using no_devices_check [OF pa ka]
    by (simp add: all_no_devices_world_def keyed_world_def bare_world_def log_def
          read_message_hi push_text wrapped_client_eq wrapped_remote note_kwargs_def)
  from 1 2 show ?thesis by simp
qed


text \<open>
  C7, as the code has it. \<^verbatim>\<open>elif args.device\<close> takes a name that is not empty. With such a
  name and a device list that is not empty, a device whose nickname equals the name (string
  equality: every character, case included) is selected when there is one; when there is none
  \<^verbatim>\<open>main\<close> prints the line with the known nicknames and returns 1, and after the client was
  created the trace holds that line only: nothing is classified or pushed.
\<close>

theorem device_by_name:
  assumes "parse_args (argv w) = Inr a" and "device a = Some name" and "name \<noteq> []"
    and "get_api_key w = (Inr key, w1)" and "account_devices w1 \<noteq> []"
  shows "(name \<in> nickname ` set (account_devices w1) \<longrightarrow>
            (\<exists>d\<in>set (account_devices w1). nickname d = name
               \<and> select_device a (wrapped_client key w1) (log (Connect key) w1)
                   = Some (Inr (PDevice d), log (Connect key) w1)))
       \<and> (name \<notin> nickname ` set (account_devices w1) \<longrightarrow>
            main w = Some (Return 1,
                           print (''Unknown device '' @ name @ ''. Available devices: ''
                                  @ join '', '' (dict_keys (devices_by_names (account_devices w1))))
                             (log (Connect key) w1)))
       \<and> set (dict_keys (devices_by_names (account_devices w1))) = nickname ` set (account_devices w1)"
proof -
  have d: "devices (wrapped_client key w1) = account_devices w1"
    by (simp add: wrapped_client_eq)
  from assms(1,2) have x: "\<not> all a" "\<not> interactive a"
    using parsed_device_exclusive by blast+
  note s = select_device_named [of a name "wrapped_client key w1" "log (Connect key) w1",
      OF x assms(2,3), unfolded d, OF assms(5)]
  have hit: "\<exists>d\<in>set (account_devices w1). nickname d = name
               \<and> select_device a (wrapped_client key w1) (log (Connect key) w1)
                   = Some (Inr (PDevice d), log (Connect key) w1)"
    if "name \<in> nickname ` set (account_devices w1)"
    using s that last_filter_named [OF that] by auto
  have miss: "main w = Some (Return 1,
                           print (''Unknown device '' @ name @ ''. Available devices: ''
                                  @ join '', '' (dict_keys (devices_by_names (account_devices w1))))
                             (log (Connect key) w1))"
    if "name \<notin> nickname ` set (account_devices w1)"
    using s that main_select [OF assms(1,4)] by (simp add: unknown_device_line_def)
  from hit miss devices_by_names_keys(1) show ?thesis by blast
qed

theorem device_by_name_witness:
  "main unknown_name_world =
     Some (Return 1,
           unknown_name_world\<lparr>trace :=
             [IsFile ''/home/u/.pushbulletkey'', Open ''/home/u/.pushbulletkey'' ''r'',
              Connect ''ABC123'',
              Print ''Unknown device phone. Available devices: Phone, Tablet'']\<rparr>)
   \<and> select_device \<lparr>msg = [''hi''], all = False, interactive = False, device = Some ''Tablet''\<rparr>
        (wrapped_client ''ABC123''
           (known_name_world\<lparr>trace := [IsFile ''/home/u/.pushbulletkey'', Open ''/home/u/.pushbulletkey'' ''r'']\<rparr>))
        (known_name_world\<lparr>trace := [IsFile ''/home/u/.pushbulletkey'', Open ''/home/u/.pushbulletkey'' ''r'',
                                      Connect ''ABC123'']\<rparr>)
      = Some (Inr (PDevice tablet),
              known_name_world\<lparr>trace := [IsFile ''/home/u/.pushbulletkey'', Open ''/home/u/.pushbulletkey'' ''r'',
                                      Connect ''ABC123'']\<rparr>)"
proof -
  let ?w = "unknown_name_world"
  let ?v = "known_name_world"
  have pv: "parse_args (argv ?v) = Inr \<lparr>msg = [''hi''], all = False, interactive = False, device = Some ''Tablet''\<rparr>"
    by (simp add: known_name_world_def keyed_world_def bare_world_def parse_examples)
  have kv: "get_api_key ?v = (Inr ''ABC123'', ?v\<lparr>trace := trace ?v @ [IsFile (key_path ?v), Open (key_path ?v) ''r'']\<rparr>)"
    by (rule keyed_key [where m = 384]) (simp add: known_name_world_def keyed_world_def bare_world_def)
  have hit: "select_device \<lparr>msg = [''hi''], all = False, interactive = False, device = Some ''Tablet''\<rparr>
        (wrapped_client ''ABC123''
           (known_name_world\<lparr>trace := [IsFile ''/home/u/.pushbulletkey'', Open ''/home/u/.pushbulletkey'' ''r'']\<rparr>))
        (known_name_world\<lparr>trace := [IsFile ''/home/u/.pushbulletkey'', Open ''/home/u/.pushbulletkey'' ''r'',
                                      Connect ''ABC123'']\<rparr>)
      = Some (Inr (PDevice tablet),
              known_name_world\<lparr>trace := [IsFile ''/home/u/.pushbulletkey'', Open ''/home/u/.pushbulletkey'' ''r'',
                                      Connect ''ABC123'']\<rparr>)"
    using device_by_name [OF pv _ _ kv, of "''Tablet''"]
    by (auto simp: known_name_world_def keyed_world_def bare_world_def log_def phone_def tablet_def)
  have p: "parse_args (argv ?w) = Inr \<lparr>msg = [''hi''], all = False, interactive = False, device = Some ''phone''\<rparr>"
    by (simp add: unknown_name_world_def keyed_world_def bare_world_def parse_examples)
  have k: "get_api_key ?w = (Inr ''ABC123'', ?w\<lparr>trace := trace ?w @ [IsFile (key_path ?w), Open (key_path ?w) ''r'']\<rparr>)"
    by (rule keyed_key [where m = 384]) (simp add: unknown_name_world_def keyed_world_def bare_world_def)
  have miss: "main unknown_name_world =
     Some (Return 1,
           unknown_name_world\<lparr>trace :=
             [IsFile ''/home/u/.pushbulletkey'', Open ''/home/u/.pushbulletkey'' ''r'',
              Connect ''ABC123'',
              Print ''Unknown device phone. Available devices: Phone, Tablet'']\<rparr>)"
    using device_by_name [OF p _ _ k, of "''phone''"]
    by (simp add: unknown_name_world_def keyed_world_def bare_world_def print_def log_def
          phone_def tablet_def devices_by_names_def dict_keys_def)
  from miss hit show ?thesis by simp
qed

text \<open>
  C7 as the specification words it covers every name. With \<^verbatim>\<open>--device ""\<close> no device has the
  empty nickname, yet \<^verbatim>\<open>main\<close> neither prints the list nor returns 1: the empty name counts
  as no name, and the note is pushed without a device.
\<close>

theorem device_empty_name_counterexample:
  "parse_args (argv empty_name_world)
     = Inr \<lparr>msg = [''hi''], all = False, interactive = False, device = Some []\<rparr>
   \<and> dict_get (devices_by_names (account_devices empty_name_world)) [] = None
   \<and> main empty_name_world =
     Some (Return 0,
           empty_name_world\<lparr>trace :=
             [IsFile ''/home/u/.pushbulletkey'', Open ''/home/u/.pushbulletkey'' ''r'',
              Connect ''ABC123'', IsFile ''hi'',
              Remote (Call ''push_note'' [] [(''title'', PStr ''Note''), (''body'', PStr ''hi'')])]\<rparr>)"
proof -
  let ?w = "empty_name_world"
  have p: "parse_args (argv ?w) = Inr \<lparr>msg = [''hi''], all = False, interactive = False, device = Some []\<rparr>"
    by (simp add: empty_name_world_def keyed_world_def bare_world_def parse_examples)
  have k: "get_api_key ?w = (Inr ''ABC123'', ?w\<lparr>trace := trace ?w @ [IsFile (key_path ?w), Open (key_path ?w) ''r'']\<rparr>)"
    by (rule keyed_key [where m = 384]) (simp add: empty_name_world_def keyed_world_def bare_world_def)
  have g: "dict_get (devices_by_names (account_devices ?w)) [] = None"
    by (simp add: empty_name_world_def keyed_world_def bare_world_def devices_by_names_get
          phone_def tablet_def)
  have m: "main ?w = Some (Return 0,
           ?w\<lparr>trace :=
             [IsFile ''/home/u/.pushbulletkey'', Open ''/home/u/.pushbulletkey'' ''r'',
              Connect ''ABC123'', IsFile ''hi'',
              Remote (Call ''push_note'' [] [(''title'', PStr ''Note''), (''body'', PStr ''hi'')])]\<rparr>)"
    using main_select [OF p k]
    by (simp add: empty_name_world_def keyed_world_def bare_world_def log_def
          select_device_empty_name read_message_hi push_text wrapped_client_eq wrapped_remote
          note_kwargs_def)
  from p g m show ?thesis by simp
qed

text \<open>
  C2 as the specification words it has the identifier of the resolved device as the routing
  option. With \<^verbatim>\<open>--device Tablet hi\<close> and the devices \<open>phone\<close> and \<open>tablet\<close>, \<^verbatim>\<open>main\<close> resolves
  the name to \<open>tablet\<close>, whose identifier is \<^verbatim>\<open>dev2\<close>, and the one call that it makes carries
  the device itself under \<^verbatim>\<open>device\<close>, not the string \<^verbatim>\<open>dev2\<close>.
\<close>

theorem push_note_device_counterexample:
  "main known_name_world =
     Some (Return 0,
           known_name_world\<lparr>trace :=
             [IsFile ''/home/u/.pushbulletkey'', Open ''/home/u/.pushbulletkey'' ''r'',
              Connect ''ABC123'', IsFile ''hi'',
              Remote (Call ''push_note'' []
                        [(''title'', PStr ''Note''), (''body'', PStr ''hi''),
                         (''device'', PDevice tablet)])]\<rparr>)
   \<and> iden tablet = ''dev2''
   \<and> PDevice tablet \<noteq> PStr (iden tablet)"
proof -
  let ?v = "known_name_world"
  let ?a = "\<lparr>msg = [''hi''], all = False, interactive = False, device = Some ''Tablet''\<rparr>"
  have p: "parse_args (argv ?v) = Inr ?a"
    by (simp add: known_name_world_def keyed_world_def bare_world_def parse_examples)
  have k: "get_api_key ?v = (Inr ''ABC123'', ?v\<lparr>trace := trace ?v @ [IsFile (key_path ?v), Open (key_path ?v) ''r'']\<rparr>)"
    by (rule keyed_key [where m = 384]) (simp add: known_name_world_def keyed_world_def bare_world_def)
  let ?w1 = "?v\<lparr>trace := trace ?v @ [IsFile (key_path ?v), Open (key_path ?v) ''r'']\<rparr>"
  have d: "devices (wrapped_client ''ABC123'' ?w1) = [phone, tablet]"
    by (simp add: wrapped_client_eq known_name_world_def keyed_world_def bare_world_def)
  have "select_device ?a (wrapped_client ''ABC123'' ?w1) (log (Connect ''ABC123'') ?w1)
          = Some (Inr (PDevice (last [x\<leftarrow>[phone, tablet]. nickname x = ''Tablet''])),
                  log (Connect ''ABC123'') ?w1)"
    using select_device_named [of ?a "''Tablet''" "wrapped_client ''ABC123'' ?w1"
        "log (Connect ''ABC123'') ?w1"]
    unfolding d by (simp add: phone_def tablet_def)
  then have s: "select_device ?a (wrapped_client ''ABC123'' ?w1) (log (Connect ''ABC123'') ?w1)
          = Some (Inr (PDevice tablet), log (Connect ''ABC123'') ?w1)"
    by (simp add: phone_def tablet_def)
  from main_select [OF p k] have
    "main ?v =
       (case read_message ?a (log (Connect ''ABC123'') ?w1) of
          None \<Rightarrow> None
        | Some ((arg, dtype), w4) \<Rightarrow>
            (case push (wrapped_client ''ABC123'' ?w1) (PDevice tablet) arg dtype w4 of
               (Inl e, w5) \<Rightarrow> Some (Raise e, w5)
             | (Inr r, w5) \<Rightarrow> Some (Return 0, w5)))"
    unfolding s by simp
  then have m: "main ?v = Some (Return 0,
           ?v\<lparr>trace :=
             [IsFile ''/home/u/.pushbulletkey'', Open ''/home/u/.pushbulletkey'' ''r'',
              Connect ''ABC123'', IsFile ''hi'',
              Remote (Call ''push_note'' []
                        [(''title'', PStr ''Note''), (''body'', PStr ''hi''),
                         (''device'', PDevice tablet)])]\<rparr>)"
    by (simp add: known_name_world_def keyed_world_def bare_world_def log_def
          read_message_hi push_text wrapped_client_eq wrapped_remote note_kwargs_def)
  from m show ?thesis by (simp add: tablet_def)
qed

text \<open>
  C10. In the dictionary from nicknames to devices a later device replaces an earlier one
  with the same nickname, so a name is resolved to the last device of the list that carries
  it; the keys of the dictionary are the nicknames, each once, and the line printed for an
  unknown name joins these keys.
\<close>

theorem duplicate_nicknames:
  "(name \<in> nickname ` set devs \<longrightarrow>
      dict_get (devices_by_names devs) name = Some (last [d\<leftarrow>devs. nickname d = name]))
   \<and> distinct (dict_keys (devices_by_names devs))
   \<and> set (dict_keys (devices_by_names devs)) = nickname ` set devs
   \<and> (\<not> all a \<and> \<not> interactive a \<and> device a = Some name \<and> name \<noteq> []
        \<and> name \<in> nickname ` set (devices pb) \<longrightarrow>
        select_device a pb w = Some (Inr (PDevice (last [d\<leftarrow>devices pb. nickname d = name])), w))
   \<and> (\<not> all a \<and> \<not> interactive a \<and> device a = Some name \<and> name \<noteq> []
        \<and> devices pb \<noteq> [] \<and> name \<notin> nickname ` set (devices pb) \<longrightarrow>
        select_device a pb w =
          Some (Inl (Return 1),
                print (''Unknown device '' @ name @ ''. Available devices: ''
                       @ join '', '' (dict_keys (devices_by_names (devices pb)))) w))"
proof -
  have "devices pb \<noteq> []" if "name \<in> nickname ` set (devices pb)"
    using that by auto
  then show ?thesis
    using devices_by_names_get [of devs name] devices_by_names_keys [of devs]
      select_device_named [of a name pb w]
    by (auto simp: unknown_device_line_def)
qed

theorem duplicate_nicknames_witness:
  "dict_get (devices_by_names [phone, tablet, new_phone]) ''Phone'' = Some new_phone
   \<and> dict_keys (devices_by_names [phone, tablet, new_phone]) = [''Phone'', ''Tablet'']
   \<and> select_device \<lparr>msg = [], all = False, interactive = False, device = Some ''Phone''\<rparr>
        (wrapped_client ''k'' (bare_world\<lparr>account_devices := [phone, tablet, new_phone]\<rparr>)) bare_world
      = Some (Inr (PDevice new_phone), bare_world)
   \<and> select_device \<lparr>msg = [], all = False, interactive = False, device = Some ''TV''\<rparr>
        (wrapped_client ''k'' (bare_world\<lparr>account_devices := [phone, tablet, new_phone]\<rparr>)) bare_world
      = Some (Inl (Return 1),
              print ''Unknown device TV. Available devices: Phone, Tablet'' bare_world)"
  using duplicate_nicknames [of "''Phone''" "[phone, tablet, new_phone]"
      "\<lparr>msg = [], all = False, interactive = False, device = Some ''Phone''\<rparr>"
      "wrapped_client ''k'' (bare_world\<lparr>account_devices := [phone, tablet, new_phone]\<rparr>)" bare_world]
    duplicate_nicknames [of "''TV''" "[phone, tablet, new_phone]"
      "\<lparr>msg = [], all = False, interactive = False, device = Some ''TV''\<rparr>"
      "wrapped_client ''k'' (bare_world\<lparr>account_devices := [phone, tablet, new_phone]\<rparr>)" bare_world]
  by (simp add: wrapped_client_eq phone_def tablet_def new_phone_def devices_by_names_def
        dict_keys_def bare_world_def)

subsection \<open>The interactive selection\<close>

lemma prompt_loop_Eof:
  "stdin w = Eof \<Longrightarrow>
   prompt_loop devs w = Some (Inl EOFError, log (ReadLine ''Push to which device? '') w)"
  by (subst prompt_loop.simps) (simp add: raw_input_def)

lemma prompt_loop_Line:
  "stdin w = Line l rest \<Longrightarrow>
   prompt_loop devs w =
     (case chosen devs l of
        Some d \<Rightarrow> Some (Inr d, asked w rest)
      | None \<Rightarrow> prompt_loop devs (asked w rest))"
  by (subst prompt_loop.simps)
     (simp add: raw_input_def chosen_def asked_def split: option.splits)

lemma line_at_simps:
  "line_at 0 (Line l rest) = Some l"
  "line_at (Suc n) (Line l rest) = line_at n rest"
  "line_at n Eof = None"
  by (simp_all add: line_at_def) (cases n; simp)

lemma stdin_asked [simp]: "stdin (asked w rest) = rest"
  by (simp add: asked_def log_def)

lemma prompt_loop_ends:
  assumes "prompt_loop devs w = Some r"
  shows "\<exists>n. (\<forall>k<n. \<exists>l. line_at k (stdin w) = Some l \<and> chosen devs l = None)
           \<and> (case fst r of
                 Inl e \<Rightarrow> line_at n (stdin w) = None
               | Inr d \<Rightarrow> \<exists>l. line_at n (stdin w) = Some l \<and> chosen devs l = Some d)"
  using assms
proof (induction devs w r rule: prompt_loop.raw_induct [rotated, consumes 1])
  case (1 loop devs w r)
  show ?case
  proof (cases "stdin w")
    case Eof
    with 1(2) have "fst r = Inl EOFError" by (auto simp: raw_input_def)
    with Eof have "(\<forall>k<0. \<exists>l. line_at k (stdin w) = Some l \<and> chosen devs l = None)
           \<and> (case fst r of
                 Inl e \<Rightarrow> line_at 0 (stdin w) = None
               | Inr d \<Rightarrow> \<exists>l. line_at 0 (stdin w) = Some l \<and> chosen devs l = Some d)"
      by (simp add: line_at_simps)
    then show ?thesis by blast
  next
    case (Line l rest)
    show ?thesis
    proof (cases "chosen devs l")
      case (Some d)
      with 1(2) Line have "fst r = Inr d"
        by (auto simp: raw_input_def chosen_def split: option.splits if_splits)
      with Line Some have "(\<forall>k<0. \<exists>l. line_at k (stdin w) = Some l \<and> chosen devs l = None)
           \<and> (case fst r of
                 Inl e \<Rightarrow> line_at 0 (stdin w) = None
               | Inr d \<Rightarrow> \<exists>l. line_at 0 (stdin w) = Some l \<and> chosen devs l = Some d)"
        by (simp add: line_at_simps)
      then show ?thesis by blast
    next
      case None
      with 1(2) Line have "loop devs (asked w rest) = Some r"
        by (auto simp: raw_input_def chosen_def asked_def split: option.splits if_splits)
      then have "\<exists>n. (\<forall>k<n. \<exists>l. line_at k (stdin (asked w rest)) = Some l \<and> chosen devs l = None)
           \<and> (case fst r of
                 Inl e \<Rightarrow> line_at n (stdin (asked w rest)) = None
               | Inr d \<Rightarrow> \<exists>l. line_at n (stdin (asked w rest)) = Some l \<and> chosen devs l = Some d)"
        by (rule 1(1))
      then obtain n where
        b: "\<forall>k<n. \<exists>l. line_at k rest = Some l \<and> chosen devs l = None"
        and e: "case fst r of
                 Inl e \<Rightarrow> line_at n rest = None
               | Inr d \<Rightarrow> \<exists>l. line_at n rest = Some l \<and> chosen devs l = Some d"
        unfolding stdin_asked by auto
      have "\<forall>k<Suc n. \<exists>l'. line_at k (stdin w) = Some l' \<and> chosen devs l' = None"
      proof (intro allI impI)
        fix k assume "k < Suc n"
        then show "\<exists>l'. line_at k (stdin w) = Some l' \<and> chosen devs l' = None"
          using b None Line by (cases k) (simp_all add: line_at_simps)
      qed
      moreover from e Line have "case fst r of
                 Inl e \<Rightarrow> line_at (Suc n) (stdin w) = None
               | Inr d \<Rightarrow> \<exists>l. line_at (Suc n) (stdin w) = Some l \<and> chosen devs l = Some d"
        by (cases "fst r") (simp_all add: line_at_simps)
      ultimately show ?thesis by blast
    qed
  qed
qed


lemma prompt_loop_first_valid:
  assumes "\<forall>k<n. \<exists>l'. line_at k (stdin w) = Some l' \<and> chosen devs l' = None"
    and "line_at n (stdin w) = Some l" and "chosen devs l = Some d"
  shows "prompt_loop devs w =
     Some (Inr d, w\<lparr>stdin := after (Suc n) (stdin w),
                      trace := trace w @ replicate (Suc n) (ReadLine ''Push to which device? '')\<rparr>)"
  using assms
proof (induction n arbitrary: w)
  case 0
  then obtain rest where s: "stdin w = Line l rest"
    by (cases "stdin w") (simp_all add: line_at_simps)
  with 0 show ?case by (simp add: prompt_loop_Line asked_def log_def)
next
  case (Suc n)
  from Suc.prems(1) obtain l0 where l0: "line_at 0 (stdin w) = Some l0" "chosen devs l0 = None"
    by blast
  then obtain rest where s: "stdin w = Line l0 rest"
    by (cases "stdin w") (simp_all add: line_at_simps)
  have "\<forall>k<n. \<exists>l'. line_at k (stdin (asked w rest)) = Some l' \<and> chosen devs l' = None"
  proof (intro allI impI)
    fix k assume "k < n"
    then have "Suc k < Suc n" by simp
    with Suc.prems(1) s show "\<exists>l'. line_at k (stdin (asked w rest)) = Some l' \<and> chosen devs l' = None"
      by (metis line_at_simps(2) stdin_asked)
  qed
  moreover from Suc.prems(2) s have "line_at n (stdin (asked w rest)) = Some l"
    by (simp add: line_at_simps)
  ultimately have "prompt_loop devs (asked w rest) =
     Some (Inr d, (asked w rest)\<lparr>stdin := after (Suc n) (stdin (asked w rest)),
                      trace := trace (asked w rest) @ replicate (Suc n) (ReadLine ''Push to which device? '')\<rparr>)"
    using Suc.prems(3) by (rule Suc.IH)
  with s l0 show ?case by (simp add: prompt_loop_Line asked_def log_def)
qed

lemma prompt_loop_forever:
  assumes "\<forall>n. \<exists>l. line_at n (stdin w) = Some l \<and> chosen devs l = None"
  shows "prompt_loop devs w = None"
proof (cases "prompt_loop devs w")
  case None
  then show ?thesis .
next
  case (Some r)
  from prompt_loop_ends [OF this] obtain n where
    e: "case fst r of
       Inl e \<Rightarrow> line_at n (stdin w) = None
     | Inr d \<Rightarrow> \<exists>l. line_at n (stdin w) = Some l \<and> chosen devs l = Some d"
    by blast
  from assms obtain l where l: "line_at n (stdin w) = Some l" "chosen devs l = None" by blast
  from e l have False by (cases "fst r") simp_all
  then show ?thesis ..
qed

lemma print_menu:
  "foldl (\<lambda>v p. print (menu_line p) v) w ps = w\<lparr>trace := trace w @ map Print (map menu_line ps)\<rparr>"
  by (induction ps arbitrary: w) (simp_all add: print_def log_def)

lemma prompt_device_eq:
  "prompt_device devs w = prompt_loop devs (w\<lparr>trace := trace w @ map Print (menu devs)\<rparr>)"
  by (simp add: prompt_device_def print_menu menu_def)

lemma enumerate_from_nth:
  "length (enumerate_from i xs) = length xs"
  "k < length xs \<Longrightarrow> enumerate_from i xs ! k = (i + k, xs ! k)"
proof (induction xs arbitrary: i k)
  case Nil
  { case 1 show ?case by simp }
  { case 2 then show ?case by simp }
next
  case (Cons x xs)
  { case 1 show ?case by (simp add: Cons.IH) }
  { case 2 then show ?case by (cases k) (simp_all add: Cons.IH) }
qed

lemma menu_nth:
  "length (menu devs) = length devs"
  "k < length devs \<Longrightarrow> menu devs ! k = ''['' @ str_nat k @ ''] '' @ nickname (devs ! k)"
  by (simp_all add: menu_def enumerate_from_nth menu_line_def)

lemma chosen_Some:
  "chosen devs l = Some d \<Longrightarrow>
   \<exists>i. py_int (strip (chomp l)) = Some i \<and> 0 \<le> i \<and> i < int (length devs) \<and> d = devs ! nat i"
  by (auto simp: chosen_def split: option.splits if_splits)


text \<open>
  C9. \<^verbatim>\<open>_prompt_device\<close> first prints the menu, one line per device with its index from 0
  and its nickname, and then loops. A line that does not parse as an integer, or parses as
  one outside \<open>0 \<le> i < len(devices)\<close>, leads to the next prompt with nothing else done. The
  function returns a device only for a line that parses as an index in range, and then it
  returns the device at that index; it does return at the first such line. On an input of
  lines none of which is a valid choice it never returns.
\<close>

theorem prompt_device_loop:
  "prompt_device devs w = prompt_loop devs (w\<lparr>trace := trace w @ map Print (menu devs)\<rparr>)
   \<and> length (menu devs) = length devs
   \<and> (\<forall>k<length devs. menu devs ! k = ''['' @ str_nat k @ ''] '' @ nickname (devs ! k))
   \<and> (prompt_device devs w = Some (Inr d, w') \<longrightarrow>
        (\<exists>n l i. line_at n (stdin w) = Some l \<and> py_int (strip (chomp l)) = Some i
                 \<and> 0 \<le> i \<and> i < int (length devs) \<and> d = devs ! nat i))
   \<and> (stdin v = Line l rest \<and> chosen devs l = None \<longrightarrow>
        prompt_loop devs v = prompt_loop devs (asked v rest))
   \<and> ((\<forall>k<n. \<exists>l'. line_at k (stdin w) = Some l' \<and> chosen devs l' = None)
        \<and> line_at n (stdin w) = Some l \<and> chosen devs l = Some d \<longrightarrow>
        prompt_device devs w =
          Some (Inr d,
                w\<lparr>stdin := after (Suc n) (stdin w),
                  trace := trace w @ map Print (menu devs)
                           @ replicate (Suc n) (ReadLine ''Push to which device? '')\<rparr>))
   \<and> ((\<forall>n. \<exists>l. line_at n (stdin w) = Some l \<and> chosen devs l = None) \<longrightarrow>
        prompt_device devs w = None)"
proof -
  let ?w = "w\<lparr>trace := trace w @ map Print (menu devs)\<rparr>"
  have s: "stdin ?w = stdin w" by simp
  have only: "\<exists>n l i. line_at n (stdin w) = Some l \<and> py_int (strip (chomp l)) = Some i
                 \<and> 0 \<le> i \<and> i < int (length devs) \<and> d = devs ! nat i"
    if "prompt_device devs w = Some (Inr d, w')"
  proof -
    from that have "prompt_loop devs ?w = Some (Inr d, w')" by (simp add: prompt_device_eq)
    from prompt_loop_ends [OF this] obtain n l where
      "line_at n (stdin w) = Some l" "chosen devs l = Some d"
      by auto
    with chosen_Some [of devs l d] show ?thesis by blast
  qed
  have first: "prompt_device devs w =
          Some (Inr d,
                w\<lparr>stdin := after (Suc n) (stdin w),
                  trace := trace w @ map Print (menu devs)
                           @ replicate (Suc n) (ReadLine ''Push to which device? '')\<rparr>)"
    if "\<forall>k<n. \<exists>l'. line_at k (stdin w) = Some l' \<and> chosen devs l' = None"
      and "line_at n (stdin w) = Some l" and "chosen devs l = Some d"
    using prompt_loop_first_valid [where n = n and w = ?w and devs = devs and l = l and d = d] that
    by (simp add: prompt_device_eq)
  have never: "prompt_device devs w = None"
    if "\<forall>n. \<exists>l. line_at n (stdin w) = Some l \<and> chosen devs l = None"
    using prompt_loop_forever [of ?w devs] that by (simp add: prompt_device_eq)
  have again: "prompt_loop devs v = prompt_loop devs (asked v rest)"
    if "stdin v = Line l rest" and "chosen devs l = None"
    using that by (simp add: prompt_loop_Line)
  from only first never again prompt_device_eq [of devs w] menu_nth [where devs = devs]
  show ?thesis by blast
qed

lemma after_noise: "after n noise = noise"
proof (induction n)
  case 0
  show ?case by simp
next
  case (Suc n)
  have "after (Suc n) noise = after (Suc n) (Line ''x'' noise)"
    by (subst noise.code) (rule refl)
  with Suc show ?case by simp
qed

lemma line_at_noise: "line_at n noise = Some ''x''"
proof -
  have "line_at n noise = (case Line ''x'' noise of Eof \<Rightarrow> None | Line l rest \<Rightarrow> Some l)"
    unfolding line_at_def after_noise by (subst noise.code) (rule refl)
  then show ?thesis by simp
qed

lemma chosen_examples:
  "chosen [phone, tablet] (''x'' @ [newline]) = None"
  "chosen [phone, tablet] (''7'' @ [newline]) = None"
  "chosen [phone, tablet] ('' 1 '' @ [newline]) = Some tablet"
  "chosen [phone, tablet] ''x'' = None"
  by (simp_all add: chosen_def py_int_def strip_def chomp_def isspace_def parse_digits_def
        isdigit_def digits_value_def newline_def)

theorem prompt_device_loop_witness:
  "prompt_device [phone, tablet] typo_world =
     Some (Inr tablet,
           typo_world\<lparr>stdin := Line ''0'' Eof,
             trace := [Print ''[0] Phone'', Print ''[1] Tablet'',
                       ReadLine ''Push to which device? '', ReadLine ''Push to which device? '',
                       ReadLine ''Push to which device? '']\<rparr>)
   \<and> prompt_device [phone, tablet] (bare_world\<lparr>stdin := noise\<rparr>) = None
   \<and> prompt_loop [phone, tablet] typo_world =
       prompt_loop [phone, tablet]
         (asked typo_world (Line (''7'' @ [newline]) (Line ('' 1 '' @ [newline]) (Line ''0'' Eof))))
   \<and> (\<exists>n l i. line_at n (stdin typo_world) = Some l \<and> py_int (strip (chomp l)) = Some i
          \<and> 0 \<le> i \<and> i < int (length [phone, tablet]) \<and> tablet = [phone, tablet] ! nat i)"
proof -
  have l: "\<forall>k<2. \<exists>l'. line_at k (stdin typo_world) = Some l' \<and> chosen [phone, tablet] l' = None"
  proof (intro allI impI)
    fix k :: nat assume "k < 2"
    then have "k = 0 \<or> k = 1" by auto
    then show "\<exists>l'. line_at k (stdin typo_world) = Some l' \<and> chosen [phone, tablet] l' = None"
      using chosen_examples(1,2)
      by (auto simp: typo_world_def bare_world_def line_at_def)
  qed
  have g: "line_at 2 (stdin typo_world) = Some ('' 1 '' @ [newline])"
    by (simp add: typo_world_def bare_world_def line_at_def numeral_2_eq_2)
  have "str_nat 0 = ''0''" "str_nat 1 = ''1''" by code_simp+
  then have m: "menu [phone, tablet] = [''[0] Phone'', ''[1] Tablet'']"
    by (simp add: menu_def menu_line_def phone_def tablet_def del: str_nat.simps)
  have a: "after 3 (stdin typo_world) = Line ''0'' Eof"
    by (simp add: typo_world_def bare_world_def numeral_3_eq_3)
  have n: "\<forall>n. \<exists>l. line_at n (stdin (bare_world\<lparr>stdin := noise\<rparr>)) = Some l \<and> chosen [phone, tablet] l = None"
    using line_at_noise chosen_examples(4) by simp
  have 1: "prompt_device [phone, tablet] typo_world =
     Some (Inr tablet,
           typo_world\<lparr>stdin := Line ''0'' Eof,
             trace := [Print ''[0] Phone'', Print ''[1] Tablet'',
                       ReadLine ''Push to which device? '', ReadLine ''Push to which device? '',
                       ReadLine ''Push to which device? '']\<rparr>)"
  proof -
    from prompt_device_loop [of "[phone, tablet]" typo_world tablet typo_world typo_world
        "'' 1 '' @ [newline]" Eof 2] l g chosen_examples(3)
    have "prompt_device [phone, tablet] typo_world =
          Some (Inr tablet,
                typo_world\<lparr>stdin := after (Suc 2) (stdin typo_world),
                  trace := trace typo_world @ map Print (menu [phone, tablet])
                           @ replicate (Suc 2) (ReadLine ''Push to which device? '')\<rparr>)"
      by blast
    moreover have "after (Suc 2) (stdin typo_world) = Line ''0'' Eof"
      using a by (simp add: numeral_3_eq_3 numeral_2_eq_2)
    moreover have "trace typo_world = []" by (simp add: typo_world_def bare_world_def)
    moreover have "replicate (Suc 2) (ReadLine ''Push to which device? '')
       = [ReadLine ''Push to which device? '', ReadLine ''Push to which device? '',
          ReadLine ''Push to which device? '']"
      by (simp add: numeral_2_eq_2)
    ultimately show ?thesis using m by simp
  qed
  have 2: "prompt_device [phone, tablet] (bare_world\<lparr>stdin := noise\<rparr>) = None"
    using prompt_device_loop [of "[phone, tablet]" "bare_world\<lparr>stdin := noise\<rparr>" tablet
        typo_world typo_world "[]" Eof 0] n
    by blast
  have 3: "prompt_loop [phone, tablet] typo_world =
       prompt_loop [phone, tablet]
         (asked typo_world (Line (''7'' @ [newline]) (Line ('' 1 '' @ [newline]) (Line ''0'' Eof))))"
  proof -
    have "stdin typo_world = Line (''x'' @ [newline])
            (Line (''7'' @ [newline]) (Line ('' 1 '' @ [newline]) (Line ''0'' Eof)))"
      by (simp add: typo_world_def bare_world_def)
    with prompt_device_loop [of "[phone, tablet]" typo_world tablet typo_world typo_world
        "''x'' @ [newline]" "Line (''7'' @ [newline]) (Line ('' 1 '' @ [newline]) (Line ''0'' Eof))" 0]
      chosen_examples(1)
    show ?thesis by blast
  qed
  have 4: "\<exists>n l i. line_at n (stdin typo_world) = Some l \<and> py_int (strip (chomp l)) = Some i
          \<and> 0 \<le> i \<and> i < int (length [phone, tablet]) \<and> tablet = [phone, tablet] ! nat i"
    using prompt_device_loop [of "[phone, tablet]" typo_world tablet
        "typo_world\<lparr>stdin := Line ''0'' Eof,
             trace := [Print ''[0] Phone'', Print ''[1] Tablet'',
                       ReadLine ''Push to which device? '', ReadLine ''Push to which device? '',
                       ReadLine ''Push to which device? '']\<rparr>" typo_world "[]" Eof 0] 1
    by blast
  from 1 2 3 4 show ?thesis by blast
qed

end
